theory Spec2Isabelle
  imports Complex_Main "HOL-Library.Signed_Division"
begin

section \<open>The playback engine\<close>

text \<open>
  The players drive libopenmpt through a module handle. The engine is an external library:
  the model keeps what the players read from it (the order table, the pattern lengths, the
  position cursor), what they write to it (the cursor, the per-channel volume) and the
  sequence of mutating calls they issue. A position call moves the cursor to the order and
  row it is given and a volume call sets the volume of its channel; what the engine does
  with arguments outside the module is not modelled. The pattern being played is the one
  the order table gives for the current order. C \<open>int\<close> values are modelled as \<open>int\<close>:
  no computation of the players comes near the 32-bit range.
\<close>

datatype engine_call = is_SetPosition: SetPosition int int | SetChannelVolume int real

record Engine =
  order_pattern :: "int \<Rightarrow> int"
  pattern_num_rows :: "int \<Rightarrow> int"
  num_orders :: int
  current_order :: int
  current_row :: int
  channel_volume :: "int \<Rightarrow> real"
  calls :: "engine_call list"

definition set_position_order_row :: "Engine \<Rightarrow> int \<Rightarrow> int \<Rightarrow> Engine" where
  "set_position_order_row e ord rw =
     e\<lparr>current_order := ord, current_row := rw, calls := calls e @ [SetPosition ord rw]\<rparr>"

definition set_channel_volume :: "Engine \<Rightarrow> int \<Rightarrow> real \<Rightarrow> Engine" where
  "set_channel_volume e ch v =
     e\<lparr>channel_volume := (channel_volume e)(ch := v), calls := calls e @ [SetChannelVolume ch v]\<rparr>"

definition current_pattern :: "Engine \<Rightarrow> int" where
  "current_pattern e = order_pattern e (current_order e)"

definition position :: "Engine \<Rightarrow> int \<times> int" where
  "position e = (current_order e, current_row e)"

section \<open>modplayer\_regroover.c: data\<close>

datatype PlaybackCommandType = PLAYBACK_NONE | PLAYBACK_QUEUE_ORDER | PLAYBACK_LOOP_TILL_ROW

record PlaybackCommand =
  cmd_type :: PlaybackCommandType
  cmd_order :: int
  cmd_row :: int

definition MAX_COMMANDS :: int where
  "MAX_COMMANDS = 8"

text \<open>
  The \<open>AudioData\<close> struct of modplayer\_regroover.c and the one of modplayer\_full.c start
  with the same ten fields, in the same order, and differ in what follows: the command
  queue and the transport fields in the first, the flag \<open>do_pattern_loop\<close> in the second.
  The common fields are the record \<open>CommonData\<close>, which each struct extends. The two
  handles \<open>modext\<close> and \<open>mod\<close> name the same engine object, here the field \<open>modext\<close>.
  Flags are C ints: zero is false.
\<close>

record CommonData =
  modext :: Engine
  interactive_ok :: int
  samplerate :: real
  pitch_factor :: real
  num_channels :: int
  mute_states :: "int list"
  pattern_mode :: int
  loop_pattern :: int
  loop_order :: int
  paused :: int

record AudioData = CommonData +
  command_queue :: "PlaybackCommand list"
  command_queue_head :: int
  command_queue_tail :: int
  queued_order :: int
  queued_row :: int
  has_queued_jump :: int
  loop_till_row :: int
  is_looping_till :: int
  pending_pattern_mode_order :: int

text \<open>
  The control loop of \<open>main\<close> owns two more variables next to the \<open>AudioData\<close>: the global
  \<open>running\<close> and the static \<open>prev_row\<close>.
\<close>

record Control = AudioData +
  prev_row :: int
  running :: int

definition c_not :: "int \<Rightarrow> int" where
  "c_not x = (if x = 0 then 1 else 0)"

section \<open>modplayer\_regroover.c: operations\<close>

text \<open>
  \<open>reapply_mutes\<close>: the loop over the channels pushes one volume per channel. The mute
  vector is allocated with one entry per channel; a read outside it is undefined in C and
  unspecified here.
\<close>

definition mute_gain :: "int list \<Rightarrow> int \<Rightarrow> real" where
  "mute_gain ms ch = (if ms ! nat ch \<noteq> 0 then 0 else 1)"

definition reapply_mutes :: "'a CommonData_scheme \<Rightarrow> 'a CommonData_scheme" where
  "reapply_mutes ad =
     (if interactive_ok ad = 0 then ad
      else ad\<lparr>modext :=
             foldl (\<lambda>e ch. set_channel_volume e ch (mute_gain (mute_states ad) ch))
               (modext ad) (map int [0..<nat (num_channels ad)])\<rparr>)"

text \<open>
  The idiom \<open>set_position_order_row(mod, o, r); if (interactive_ok) reapply_mutes(ad);\<close>,
  which every jump of the player is written as.
\<close>

definition jump_to :: "'a CommonData_scheme \<Rightarrow> int \<Rightarrow> int \<Rightarrow> 'a CommonData_scheme" where
  "jump_to ad ord rw =
     (let ad1 = ad\<lparr>modext := set_position_order_row (modext ad) ord rw\<rparr>
      in if interactive_ok ad1 \<noteq> 0 then reapply_mutes ad1 else ad1)"

text \<open>
  \<open>enqueue_command\<close>: C's \<open>%\<close> truncates towards zero, which is \<open>smod\<close>. A store through an
  index outside the array is undefined in C and a no-op on the list here; the indices stay
  inside the array on every reachable state (\<open>queue_ok\<close> below).
\<close>

definition enqueue_command ::
  "'a AudioData_scheme \<Rightarrow> PlaybackCommandType \<Rightarrow> int \<Rightarrow> int \<Rightarrow> 'a AudioData_scheme" where
  "enqueue_command ad ty ord rw =
     (let next_tail = (command_queue_tail ad + 1) smod MAX_COMMANDS in
      if next_tail \<noteq> command_queue_head ad then
        ad\<lparr>command_queue := (command_queue ad)[nat (command_queue_tail ad) :=
               (command_queue ad ! nat (command_queue_tail ad))
                 \<lparr>cmd_type := ty, cmd_order := ord, cmd_row := rw\<rparr>],
           command_queue_tail := next_tail\<rparr>
      else ad)"

text \<open>The body of the \<open>switch\<close> in \<open>process_commands\<close>, for one command.\<close>

definition apply_command :: "'a AudioData_scheme \<Rightarrow> PlaybackCommand \<Rightarrow> 'a AudioData_scheme" where
  "apply_command ad cmd =
     (case cmd_type cmd of
        PLAYBACK_QUEUE_ORDER \<Rightarrow>
          if pattern_mode ad \<noteq> 0 then ad\<lparr>pending_pattern_mode_order := cmd_order cmd\<rparr>
          else ad\<lparr>queued_order := cmd_order cmd, queued_row := cmd_row cmd,
                  has_queued_jump := 1\<rparr>
      | PLAYBACK_LOOP_TILL_ROW \<Rightarrow>
          jump_to
            (ad\<lparr>loop_order := cmd_order cmd,
                loop_pattern := order_pattern (modext ad) (cmd_order cmd),
                loop_till_row := cmd_row cmd,
                is_looping_till := 1\<rparr>)
            (cmd_order cmd) 0
      | PLAYBACK_NONE \<Rightarrow> ad)"

text \<open>One turn of the \<open>while\<close> loop: the command at \<open>head\<close> is applied, then \<open>head\<close> advances.\<close>

definition process_one :: "'a AudioData_scheme \<Rightarrow> 'a AudioData_scheme" where
  "process_one ad =
     (apply_command ad (command_queue ad ! nat (command_queue_head ad)))
       \<lparr>command_queue_head := (command_queue_head ad + 1) smod MAX_COMMANDS\<rparr>"

text \<open>
  \<open>process_commands\<close>: the loop runs while \<open>head\<close> differs from \<open>tail\<close>. Nothing in the loop
  bounds it, so it is a partial function: \<open>None\<close> is a loop that never ends.
\<close>

partial_function (option) process_commands ::
  "'a AudioData_scheme \<Rightarrow> 'a AudioData_scheme option" where
  "process_commands ad =
     (if command_queue_head ad \<noteq> command_queue_tail ad then process_commands (process_one ad)
      else Some ad)"

text \<open>
  \<open>audio_callback\<close>: the queue is drained, a queued jump is consumed, and unless the player
  is paused the engine renders \<open>frames\<close> frames. What rendering does to the engine (it
  advances the cursor) is the engine's business: the parameter \<open>rd\<close>.
\<close>

definition consume_queued_jump :: "'a AudioData_scheme \<Rightarrow> 'a AudioData_scheme" where
  "consume_queued_jump ad =
     (if has_queued_jump ad \<noteq> 0
      then (jump_to ad (queued_order ad) (queued_row ad))\<lparr>has_queued_jump := 0\<rparr>
      else ad)"

definition render :: "(real \<Rightarrow> int \<Rightarrow> Engine \<Rightarrow> Engine) \<Rightarrow> int \<Rightarrow>
    'a CommonData_scheme \<Rightarrow> 'a CommonData_scheme" where
  "render rd frames ad =
     (if paused ad \<noteq> 0 then ad
      else ad\<lparr>modext := rd (samplerate ad * pitch_factor ad) frames (modext ad)\<rparr>)"

definition audio_callback :: "(real \<Rightarrow> int \<Rightarrow> Engine \<Rightarrow> Engine) \<Rightarrow> int \<Rightarrow>
    'a AudioData_scheme \<Rightarrow> 'a AudioData_scheme option" where
  "audio_callback rd frames ad =
     (case process_commands ad of
        None \<Rightarrow> None
      | Some ad1 \<Rightarrow> Some (render rd frames (consume_queued_jump ad1)))"

subsection \<open>The key handlers of the control loop\<close>

text \<open>The handler of the keys 1 to 9, for the 0-based channel \<open>ch\<close>.\<close>

definition toggle_channel :: "'a AudioData_scheme \<Rightarrow> int \<Rightarrow> 'a AudioData_scheme" where
  "toggle_channel ad ch =
     (if ch < num_channels ad then
        let ms = (mute_states ad)[nat ch := c_not (mute_states ad ! nat ch)]
        in ad\<lparr>mute_states := ms,
              modext := set_channel_volume (modext ad) ch (mute_gain ms ch)\<rparr>
      else ad)"

definition mute_all :: "'a AudioData_scheme \<Rightarrow> 'a AudioData_scheme" where
  "mute_all ad =
     foldl (\<lambda>a ch. a\<lparr>mute_states := (mute_states a)[nat ch := 1],
                       modext := set_channel_volume (modext a) ch 0\<rparr>)
       ad (map int [0..<nat (num_channels ad)])"

definition unmute_all :: "'a AudioData_scheme \<Rightarrow> 'a AudioData_scheme" where
  "unmute_all ad =
     foldl (\<lambda>a ch. a\<lparr>mute_states := (mute_states a)[nat ch := 0],
                       modext := set_channel_volume (modext a) ch 1\<rparr>)
       ad (map int [0..<nat (num_channels ad)])"

abbreviation key :: "char \<Rightarrow> int" where
  "key c \<equiv> of_char c"

text \<open>
  The \<open>if\<close> chain on the key read in \<open>main\<close>, in the source's order: the state it leaves.
  What it prints does not reach the state and is modelled next, on its own.
\<close>

definition handle_key :: "int \<Rightarrow> 'a Control_scheme \<Rightarrow> 'a Control_scheme" where
  "handle_key k s =
     (if k = 27 \<or> k = key CHR ''q'' \<or> k = key CHR ''Q'' then s\<lparr>running := 0\<rparr>
      else if k = key CHR '' '' then s\<lparr>paused := c_not (paused s)\<rparr>
      else if k = key CHR ''r'' \<or> k = key CHR ''R'' then
        jump_to s (current_order (modext s)) 0
      else if k = key CHR ''N'' \<or> k = key CHR ''n'' then
        (let cur_order = current_order (modext s); next_order = cur_order + 1
         in if next_order < num_orders (modext s)
            then enqueue_command s PLAYBACK_QUEUE_ORDER next_order 0 else s)
      else if k = key CHR ''P'' \<or> k = key CHR ''p'' then
        (let cur_order = current_order (modext s);
             prev_order = (if cur_order > 0 then cur_order - 1 else 0)
         in enqueue_command s PLAYBACK_QUEUE_ORDER prev_order 0)
      else if k = key CHR ''j'' \<or> k = key CHR ''J'' then
        enqueue_command s PLAYBACK_LOOP_TILL_ROW
          (current_order (modext s)) (current_row (modext s))
      else if k = key CHR ''S'' \<or> k = key CHR ''s'' then
        (let s1 = s\<lparr>pattern_mode := c_not (pattern_mode s)\<rparr>
         in if pattern_mode s1 \<noteq> 0
            then s1\<lparr>loop_order := current_order (modext s1),
                    loop_pattern := current_pattern (modext s1),
                    pending_pattern_mode_order := - 1\<rparr>
            else s1)
      else if interactive_ok s \<noteq> 0 \<and> k \<ge> key CHR ''1'' \<and> k \<le> key CHR ''9'' then
        toggle_channel s (k - key CHR ''1'')
      else if interactive_ok s \<noteq> 0 \<and> (k = key CHR ''m'' \<or> k = key CHR ''M'') then mute_all s
      else if interactive_ok s \<noteq> 0 \<and> (k = key CHR ''u'' \<or> k = key CHR ''U'') then unmute_all s
      else if k = key CHR ''+'' \<or> k = key CHR ''='' then
        s\<lparr>pitch_factor := pitch_factor s * 1.05\<rparr>
      else if k = key CHR ''-'' then s\<lparr>pitch_factor := pitch_factor s / 1.05\<rparr>
      else s)"

text \<open>
  The lines the same \<open>if\<close> chain prints, one value per \<open>printf\<close>, with the numbers the
  format takes: a key prints at most one line. The line of a digit key is printed inside
  the range test, which has no \<open>else\<close>.
\<close>

datatype message =
  PlaybackPaused int
  | ImmediateRetrigger int
  | NextOrderQueued int
  | PreviousOrderQueued int
  | LoopTillRowQueued int int
  | PatternModeOn int int
  | SongModeOn
  | ChannelMuted int int
  | AllChannelsMuted
  | AllChannelsUnmuted
  | PitchFactor real

definition handle_key_prints :: "int \<Rightarrow> 'a Control_scheme \<Rightarrow> message list" where
  "handle_key_prints k s =
     (if k = 27 \<or> k = key CHR ''q'' \<or> k = key CHR ''Q'' then []
      else if k = key CHR '' '' then [PlaybackPaused (c_not (paused s))]
      else if k = key CHR ''r'' \<or> k = key CHR ''R'' then
        [ImmediateRetrigger (current_order (modext s))]
      else if k = key CHR ''N'' \<or> k = key CHR ''n'' then
        (let cur_order = current_order (modext s); next_order = cur_order + 1
         in if next_order < num_orders (modext s) then [NextOrderQueued next_order] else [])
      else if k = key CHR ''P'' \<or> k = key CHR ''p'' then
        (let cur_order = current_order (modext s);
             prev_order = (if cur_order > 0 then cur_order - 1 else 0)
         in [PreviousOrderQueued prev_order])
      else if k = key CHR ''j'' \<or> k = key CHR ''J'' then
        [LoopTillRowQueued (current_order (modext s)) (current_row (modext s))]
      else if k = key CHR ''S'' \<or> k = key CHR ''s'' then
        (if c_not (pattern_mode s) \<noteq> 0
         then [PatternModeOn (current_pattern (modext s)) (current_order (modext s))]
         else [SongModeOn])
      else if interactive_ok s \<noteq> 0 \<and> k \<ge> key CHR ''1'' \<and> k \<le> key CHR ''9'' then
        (let ch = k - key CHR ''1''
         in if ch < num_channels s then
              (let ms = (mute_states s)[nat ch := c_not (mute_states s ! nat ch)]
               in [ChannelMuted (ch + 1) (ms ! nat ch)])
            else [])
      else if interactive_ok s \<noteq> 0 \<and> (k = key CHR ''m'' \<or> k = key CHR ''M'') then
        [AllChannelsMuted]
      else if interactive_ok s \<noteq> 0 \<and> (k = key CHR ''u'' \<or> k = key CHR ''U'') then
        [AllChannelsUnmuted]
      else if k = key CHR ''+'' \<or> k = key CHR ''='' then [PitchFactor (pitch_factor s * 1.05)]
      else if k = key CHR ''-'' then [PitchFactor (pitch_factor s / 1.05)]
      else [])"

subsection \<open>The transport state machine of the control loop\<close>

text \<open>
  After the key, every turn of the loop in \<open>main\<close> polls the position and runs one of three
  branches. The first: pattern mode, not looping till a row.
\<close>

definition pattern_loop_tick :: "'a Control_scheme \<Rightarrow> 'a Control_scheme" where
  "pattern_loop_tick s =
     (let cur_order = current_order (modext s);
          cur_row = current_row (modext s);
          rows = pattern_num_rows (modext s) (loop_pattern s);
          s1 = (if prev_row s = rows - 1 \<and> cur_row = 0 then
                  (if pending_pattern_mode_order s \<noteq> - 1
                      \<and> pending_pattern_mode_order s \<noteq> loop_order s
                   then
                     (let a = s\<lparr>loop_order := pending_pattern_mode_order s\<rparr>;
                          b = a\<lparr>loop_pattern := order_pattern (modext a) (loop_order a)\<rparr>
                      in (jump_to b (loop_order b) 0)\<lparr>pending_pattern_mode_order := - 1\<rparr>)
                   else jump_to s (loop_order s) 0)
                else s);
          s2 = s1\<lparr>prev_row := cur_row\<rparr>
      in if cur_order \<noteq> loop_order s2
         then (jump_to s2 (loop_order s2) 0)\<lparr>prev_row := - 1\<rparr>
         else s2)"

text \<open>The second: looping till a row.\<close>

definition loop_till_row_tick :: "'a Control_scheme \<Rightarrow> 'a Control_scheme" where
  "loop_till_row_tick s =
     (let cur_order = current_order (modext s);
          cur_row = current_row (modext s);
          rows = pattern_num_rows (modext s) (loop_pattern s)
      in if cur_order = loop_order s then
           (let s1 = (if cur_row = loop_till_row s then s\<lparr>is_looping_till := 0\<rparr>
                      else if prev_row s = rows - 1 \<and> cur_row = 0
                      then jump_to s (loop_order s) 0
                      else s)
            in s1\<lparr>prev_row := cur_row\<rparr>)
         else s\<lparr>prev_row := - 1\<rparr>)"

text \<open>The third: a queued jump seen by the control loop.\<close>

definition queued_jump_tick :: "'a Control_scheme \<Rightarrow> 'a Control_scheme" where
  "queued_jump_tick s =
     (jump_to s (queued_order s) (queued_row s))\<lparr>has_queued_jump := 0\<rparr>"

definition tick :: "'a Control_scheme \<Rightarrow> 'a Control_scheme" where
  "tick s =
     (if pattern_mode s \<noteq> 0 \<and> is_looping_till s = 0 then pattern_loop_tick s
      else if is_looping_till s \<noteq> 0 then loop_till_row_tick s
      else if has_queued_jump s \<noteq> 0 then queued_jump_tick s
      else s)"

text \<open>One turn of the loop: \<open>k = - 1\<close> is "no key".\<close>

definition main_loop_step :: "int \<Rightarrow> 'a Control_scheme \<Rightarrow> 'a Control_scheme" where
  "main_loop_step k s = tick (if k \<noteq> - 1 then handle_key k s else s)"

text \<open>The state \<open>main\<close> sets up before the loop, for a loaded module \<open>e\<close>.\<close>

definition initial_control :: "Engine \<Rightarrow> int \<Rightarrow> int \<Rightarrow> Control" where
  "initial_control e nch iok =
     \<lparr>modext = e, interactive_ok = iok, samplerate = 48000, pitch_factor = 1,
      num_channels = nch, mute_states = replicate (nat nch) 0,
      pattern_mode = 0, loop_pattern = 0, loop_order = 0, paused = 1,
      command_queue = replicate (nat MAX_COMMANDS)
        \<lparr>cmd_type = PLAYBACK_NONE, cmd_order = 0, cmd_row = 0\<rparr>,
      command_queue_head = 0, command_queue_tail = 0,
      queued_order = 0, queued_row = 0, has_queued_jump = 0,
      loop_till_row = 0, is_looping_till = 0, pending_pattern_mode_order = - 1,
      prev_row = - 1, running = 1\<rparr>"

section \<open>modplayer\_full.c\<close>

text \<open>
  The earlier player has the pattern loop only. Its control loop never moves the cursor for
  the loop: it raises \<open>do_pattern_loop\<close>, and the audio callback jumps when it next runs.
\<close>

record FullAudioData = CommonData +
  do_pattern_loop :: int

record FullControl = FullAudioData +
  full_prev_row :: int
  full_running :: int

definition full_consume_loop :: "'a FullAudioData_scheme \<Rightarrow> 'a FullAudioData_scheme" where
  "full_consume_loop ad =
     (if do_pattern_loop ad \<noteq> 0
      then (jump_to ad (loop_order ad) 0)\<lparr>do_pattern_loop := 0\<rparr>
      else ad)"

definition full_audio_callback :: "(real \<Rightarrow> int \<Rightarrow> Engine \<Rightarrow> Engine) \<Rightarrow> int \<Rightarrow>
    'a FullAudioData_scheme \<Rightarrow> 'a FullAudioData_scheme" where
  "full_audio_callback rd frames ad = render rd frames (full_consume_loop ad)"

definition full_tick :: "'a FullControl_scheme \<Rightarrow> 'a FullControl_scheme" where
  "full_tick s =
     (if pattern_mode s \<noteq> 0 then
        (let cur_order = current_order (modext s);
             cur_row = current_row (modext s);
             rows = pattern_num_rows (modext s) (loop_pattern s)
         in if cur_order = loop_order s then
              (let s1 = (if full_prev_row s = rows - 1 \<and> cur_row = 0
                         then s\<lparr>do_pattern_loop := 1\<rparr> else s)
               in s1\<lparr>full_prev_row := cur_row\<rparr>)
            else s\<lparr>do_pattern_loop := 1, full_prev_row := - 1\<rparr>)
      else s)"

section \<open>interactive.c\<close>

text \<open>
  The first player has the mute keys only. Its \<open>AudioData\<close> is smaller, and every key
  prints a debug line: the lines are part of the state here, as \<open>out\<close>. The channel name
  the engine reports is left out of the line.
\<close>

datatype debug_line =
  DebugQuit
  | DebugChannel int int
  | DebugOutOfRange int int
  | DebugMuteAll
  | DebugUnmuteAll
  | DebugIgnored int

record PlayerData =
  p_modext :: Engine
  p_interactive_ok :: int
  p_samplerate :: real
  p_num_channels :: int
  p_mute_states :: "int list"

record PlayerLoop = PlayerData +
  p_running :: int
  out :: "debug_line list"

definition print :: "debug_line \<Rightarrow> 'a PlayerLoop_scheme \<Rightarrow> 'a PlayerLoop_scheme" where
  "print l s = s\<lparr>out := out s @ [l]\<rparr>"

definition player_set_all :: "int \<Rightarrow> real \<Rightarrow> 'a PlayerData_scheme \<Rightarrow> 'a PlayerData_scheme" where
  "player_set_all m v ad =
     foldl (\<lambda>a ch. a\<lparr>p_mute_states := (p_mute_states a)[nat ch := m],
                       p_modext := set_channel_volume (p_modext a) ch v\<rparr>)
       ad (map int [0..<nat (p_num_channels ad)])"

definition player_handle_key :: "int \<Rightarrow> 'a PlayerLoop_scheme \<Rightarrow> 'a PlayerLoop_scheme" where
  "player_handle_key k s =
     (if k = 27 \<or> k = key CHR ''q'' \<or> k = key CHR ''Q'' then (print DebugQuit s)\<lparr>p_running := 0\<rparr>
      else if p_interactive_ok s \<noteq> 0 \<and> k \<ge> key CHR ''1'' \<and> k \<le> key CHR ''9'' then
        (let ch = k - key CHR ''1''
         in if ch < p_num_channels s then
              (let ms = (p_mute_states s)[nat ch := c_not (p_mute_states s ! nat ch)]
               in print (DebugChannel (ch + 1) (ms ! nat ch))
                    (s\<lparr>p_mute_states := ms,
                       p_modext := set_channel_volume (p_modext s) ch (mute_gain ms ch)\<rparr>))
            else print (DebugOutOfRange (ch + 1) (p_num_channels s)) s)
      else if p_interactive_ok s \<noteq> 0 \<and> (k = key CHR ''m'' \<or> k = key CHR ''M'') then
        player_set_all 1 0 (print DebugMuteAll s)
      else if p_interactive_ok s \<noteq> 0 \<and> (k = key CHR ''u'' \<or> k = key CHR ''U'') then
        player_set_all 0 1 (print DebugUnmuteAll s)
      else print (DebugIgnored k) s)"

definition initial_player :: "Engine \<Rightarrow> int \<Rightarrow> int \<Rightarrow> PlayerLoop" where
  "initial_player e nch iok =
     \<lparr>p_modext = e, p_interactive_ok = iok, p_samplerate = 48000, p_num_channels = nch,
      p_mute_states = replicate (nat nch) 0, p_running = 1, out = []\<rparr>"

section \<open>Observations used in the statements\<close>

text \<open>
  The queue is well formed when the array has its \<open>MAX_COMMANDS\<close> slots and both indices
  point into it. Its occupancy is the distance from \<open>head\<close> to \<open>tail\<close> around the ring, and
  the pending commands are the slots from \<open>head\<close> up to \<open>tail\<close>, oldest first.
\<close>

definition queue_ok :: "'a AudioData_scheme \<Rightarrow> bool" where
  "queue_ok ad \<longleftrightarrow>
     length (command_queue ad) = nat MAX_COMMANDS
     \<and> 0 \<le> command_queue_head ad \<and> command_queue_head ad < MAX_COMMANDS
     \<and> 0 \<le> command_queue_tail ad \<and> command_queue_tail ad < MAX_COMMANDS"

definition occupancy :: "'a AudioData_scheme \<Rightarrow> nat" where
  "occupancy ad = nat ((command_queue_tail ad - command_queue_head ad) mod MAX_COMMANDS)"

definition pending_commands :: "'a AudioData_scheme \<Rightarrow> PlaybackCommand list" where
  "pending_commands ad =
     map (\<lambda>i. command_queue ad ! nat ((command_queue_head ad + int i) mod MAX_COMMANDS))
       [0..<occupancy ad]"

text \<open>A run of \<open>enqueue_command\<close> calls with no drain in between.\<close>

definition enqueue_all :: "'a AudioData_scheme \<Rightarrow> PlaybackCommand list \<Rightarrow> 'a AudioData_scheme" where
  "enqueue_all ad cs =
     foldl (\<lambda>a c. enqueue_command a (cmd_type c) (cmd_order c) (cmd_row c)) ad cs"

text \<open>
  The engine calls of one \<open>reapply_mutes\<close>, and of one jump followed by it; the position
  calls among a sequence of calls.
\<close>

definition reapply_calls :: "'a CommonData_scheme \<Rightarrow> engine_call list" where
  "reapply_calls ad =
     (if interactive_ok ad = 0 then []
      else map (\<lambda>ch. SetChannelVolume (int ch) (mute_gain (mute_states ad) (int ch)))
             [0..<nat (num_channels ad)])"

definition jump_calls :: "'a CommonData_scheme \<Rightarrow> int \<Rightarrow> int \<Rightarrow> engine_call list" where
  "jump_calls ad ord rw = SetPosition ord rw # reapply_calls ad"

definition position_calls :: "engine_call list \<Rightarrow> engine_call list" where
  "position_calls cs = filter is_SetPosition cs"

text \<open>
  The row-wrap test of the control loop: the row seen before was the last row of the loop
  pattern and the row seen now is row 0.
\<close>

definition wrap_seen :: "'a Control_scheme \<Rightarrow> bool" where
  "wrap_seen s \<longleftrightarrow>
     prev_row s = pattern_num_rows (modext s) (loop_pattern s) - 1 \<and> current_row (modext s) = 0"

text \<open>
  A module of four orders, each an eight-row pattern of its own, and a player of three
  channels on it: the inputs of the examples.
\<close>

definition example_module :: Engine where
  "example_module =
     \<lparr>order_pattern = (\<lambda>ord. ord), pattern_num_rows = (\<lambda>pat. 8), num_orders = 4,
      current_order = 0, current_row = 0, channel_volume = (\<lambda>ch. 1), calls = []\<rparr>"

definition example_control :: Control where
  "example_control = initial_control example_module 3 1"

definition example_player :: PlayerLoop where
  "example_player = initial_player example_module 3 1"

definition queue_order :: "int \<Rightarrow> int \<Rightarrow> PlaybackCommand" where
  "queue_order ord rw = \<lparr>cmd_type = PLAYBACK_QUEUE_ORDER, cmd_order = ord, cmd_row = rw\<rparr>"

definition loop_till :: "int \<Rightarrow> int \<Rightarrow> PlaybackCommand" where
  "loop_till ord rw = \<lparr>cmd_type = PLAYBACK_LOOP_TILL_ROW, cmd_order = ord, cmd_row = rw\<rparr>"

definition nine_commands :: "PlaybackCommand list" where
  "nine_commands = map (\<lambda>i. queue_order (int i) 0) [1..<10]"

definition three_commands :: "PlaybackCommand list" where
  "three_commands = [queue_order 1 0, loop_till 2 5, queue_order 3 0]"

definition eight_commands :: "PlaybackCommand list" where
  "eight_commands = map (\<lambda>i. queue_order (int i) 0) [1..<9]"

text \<open>
  States of the example players at the moments the statements are about: mid-pattern with
  an order pending, at the wrap, drifted out of the loop order, looping till a row.
\<close>

definition muted_example :: Control where
  "muted_example = toggle_channel example_control 1"

definition at_wrap :: Control where
  "at_wrap = example_control\<lparr>pattern_mode := 1, pending_pattern_mode_order := 1,
     prev_row := 7, modext := example_module\<lparr>current_order := 1, current_row := 0\<rparr>\<rparr>"

definition mid_pattern :: Control where
  "mid_pattern = example_control\<lparr>pattern_mode := 1, pending_pattern_mode_order := 1,
     prev_row := 3, modext := example_module\<lparr>current_order := 0, current_row := 4\<rparr>\<rparr>"

definition drifted :: Control where
  "drifted = example_control\<lparr>pattern_mode := 1,
     prev_row := 3, modext := example_module\<lparr>current_order := 1, current_row := 2\<rparr>\<rparr>"

definition full_drifted :: FullControl where
  "full_drifted =
     \<lparr>modext = example_module\<lparr>current_order := 1, current_row := 2\<rparr>,
      interactive_ok = 1, samplerate = 48000, pitch_factor = 1,
      num_channels = 3, mute_states = [0, 0, 0],
      pattern_mode = 1, loop_pattern = 0, loop_order = 0, paused = 0,
      do_pattern_loop = 0, full_prev_row = 3, full_running = 1\<rparr>"

definition looping_till :: Control where
  "looping_till = (apply_command example_control (loop_till 2 5))\<lparr>pattern_mode := 1\<rparr>"

definition escaped :: Control where
  "escaped =
     consume_queued_jump
       (apply_command (apply_command example_control (loop_till 2 5)) (queue_order 3 0))"

definition at_stop_row :: Control where
  "at_stop_row = looping_till\<lparr>prev_row := 4,
     modext := (modext looping_till)\<lparr>current_order := 2, current_row := 5\<rparr>\<rparr>"

definition wrapped_in_loop :: Control where
  "wrapped_in_loop = looping_till\<lparr>prev_row := 7\<rparr>"

definition zero_loop :: Control where
  "zero_loop = (apply_command example_control (loop_till 2 0))\<lparr>prev_row := 7\<rparr>"

definition mid_song :: Control where
  "mid_song = example_control\<lparr>modext := example_module\<lparr>current_order := 2, current_row := 5\<rparr>\<rparr>"

section \<open>The ring of eight slots\<close>

lemma cmd_overwrite:
  "(c::PlaybackCommand)\<lparr>cmd_type := ty, cmd_order := ord, cmd_row := rw\<rparr> =
     \<lparr>cmd_type = ty, cmd_order = ord, cmd_row = rw\<rparr>"
  by (cases c) simp

lemma next_index: "0 \<le> i \<Longrightarrow> (i + 1) smod MAX_COMMANDS = (i + 1) mod MAX_COMMANDS"
  by (simp add: MAX_COMMANDS_def smod_mod_positive)

lemma occupancy_le: "occupancy ad \<le> 7"
proof -
  have "(command_queue_tail ad - command_queue_head ad) mod 8 < 8" by simp
  then show ?thesis unfolding occupancy_def MAX_COMMANDS_def by linarith
qed

lemma occupancy_zero: "queue_ok ad \<Longrightarrow> occupancy ad = 0 \<longleftrightarrow> command_queue_head ad = command_queue_tail ad"
  unfolding queue_ok_def occupancy_def MAX_COMMANDS_def by auto presburger

lemma diff_mod8:
  fixes h t :: int
  assumes "0 \<le> h" "h < 8" "0 \<le> t" "t < 8"
  shows "(t - h) mod 8 = (if h \<le> t then t - h else t - h + 8)"
proof (cases "h \<le> t")
  case True
  then show ?thesis using assms by simp
next
  case False
  have "(t - h) mod 8 = (t - h + 8) mod 8" by simp
  also have "\<dots> = t - h + 8" by (rule mod_pos_pos_trivial) (use False assms in linarith)+
  finally show ?thesis using False by simp
qed

lemma add_mod8:
  fixes h k :: int
  assumes "0 \<le> h" "h < 8" "0 \<le> k" "k < 8"
  shows "(h + k) mod 8 = (if h + k < 8 then h + k else h + k - 8)"
proof (cases "h + k < 8")
  case True
  then show ?thesis using assms by simp
next
  case False
  have "(h + k) mod 8 = (h + k - 8) mod 8" by simp
  also have "\<dots> = h + k - 8" by (rule mod_pos_pos_trivial) (use False assms in linarith)+
  finally show ?thesis using False by simp
qed

lemma ring_full:
  fixes h t :: int
  assumes "0 \<le> h" "h < 8" "0 \<le> t" "t < 8"
  shows "((t + 1) mod 8 = h) \<longleftrightarrow> (nat ((t - h) mod 8) = 7)"
  using assms add_mod8 [of t 1] by (auto simp: diff_mod8 split: if_splits)

lemma full_iff:
  "queue_ok ad \<Longrightarrow>
     (command_queue_tail ad + 1) smod MAX_COMMANDS = command_queue_head ad \<longleftrightarrow> occupancy ad = 7"
  unfolding queue_ok_def occupancy_def using ring_full [of "command_queue_head ad" "command_queue_tail ad"]
  by (simp add: next_index) (simp add: MAX_COMMANDS_def)

lemma ring_grow:
  fixes h t :: int
  assumes "0 \<le> h" "h < 8" "0 \<le> t" "t < 8" "nat ((t - h) mod 8) \<noteq> 7"
  shows "nat (((t + 1) mod 8 - h) mod 8) = Suc (nat ((t - h) mod 8))"
proof -
  have a: "(t + 1) mod 8 = (if t + 1 < 8 then t + 1 else t + 1 - 8)"
    using assms add_mod8 [of t 1] by simp
  have b: "0 \<le> (t + 1) mod 8" "(t + 1) mod 8 < 8" by simp_all
  show ?thesis
    using assms diff_mod8 [OF assms(1,2) b] diff_mod8 [OF assms(1-4)] a
    by (auto split: if_splits)
qed

lemma ring_tail:
  fixes h t :: int
  assumes "0 \<le> h" "h < 8" "0 \<le> t" "t < 8"
  shows "(h + (t - h) mod 8) mod 8 = t"
proof -
  have b: "0 \<le> (t - h) mod 8" "(t - h) mod 8 < 8" by simp_all
  show ?thesis
    using add_mod8 [OF assms(1,2) b] diff_mod8 [OF assms] assms by (auto split: if_splits)
qed

lemma ring_distinct:
  fixes h t k :: int
  assumes "0 \<le> h" "h < 8" "0 \<le> t" "t < 8" "0 \<le> k" "k < (t - h) mod 8"
  shows "(h + k) mod 8 \<noteq> t"
proof -
  have "(t - h) mod 8 < 8" by simp
  then have k: "k < 8" using assms(6) by linarith
  show ?thesis
    using add_mod8 [OF assms(1,2,5) k] diff_mod8 [OF assms(1-4)] assms by (auto split: if_splits)
qed

lemma ring_shrink:
  fixes h t :: int
  assumes "0 \<le> h" "h < 8" "0 \<le> t" "t < 8" "h \<noteq> t"
  shows "Suc (nat ((t - (h + 1) mod 8) mod 8)) = nat ((t - h) mod 8)"
proof -
  have a: "(h + 1) mod 8 = (if h + 1 < 8 then h + 1 else h + 1 - 8)"
    using assms add_mod8 [of h 1] by simp
  have b: "0 \<le> (h + 1) mod 8" "(h + 1) mod 8 < 8" by simp_all
  show ?thesis
    using assms diff_mod8 [OF b assms(3,4)] diff_mod8 [OF assms(1-4)] a
    by (auto split: if_splits)
qed

lemma ring_shift:
  fixes h :: int
  shows "((h + 1) mod 8 + int i) mod 8 = (h + int (Suc i)) mod 8"
proof -
  have "((h + 1) mod 8 + int i) mod 8 = (h + 1 + int i) mod 8" by (rule mod_add_left_eq)
  also have "h + 1 + int i = h + int (Suc i)" by simp
  finally show ?thesis .
qed


lemma enqueue_full_unchanged:
  "queue_ok ad \<Longrightarrow> occupancy ad = 7 \<Longrightarrow> enqueue_command ad ty ord rw = ad"
  using full_iff [of ad] by (simp add: enqueue_command_def)

lemma enqueue_room:
  assumes ok: "queue_ok ad" and room: "occupancy ad \<noteq> 7"
  shows "queue_ok (enqueue_command ad ty ord rw)"
    and "occupancy (enqueue_command ad ty ord rw) = Suc (occupancy ad)"
    and "pending_commands (enqueue_command ad ty ord rw) =
           pending_commands ad @ [\<lparr>cmd_type = ty, cmd_order = ord, cmd_row = rw\<rparr>]"
proof -
  let ?h = "command_queue_head ad" and ?t = "command_queue_tail ad"
  let ?c = "\<lparr>cmd_type = ty, cmd_order = ord, cmd_row = rw\<rparr>"
  have b: "0 \<le> ?h" "?h < 8" "0 \<le> ?t" "?t < 8" and len: "length (command_queue ad) = 8"
    using ok by (simp_all add: queue_ok_def MAX_COMMANDS_def)
  have nt: "(?t + 1) smod MAX_COMMANDS = (?t + 1) mod 8"
    using b by (simp add: next_index) (simp add: MAX_COMMANDS_def)
  have nf: "(?t + 1) mod 8 \<noteq> ?h"
    using room ring_full [OF b] by (simp add: occupancy_def MAX_COMMANDS_def)
  have eq: "enqueue_command ad ty ord rw =
      ad\<lparr>command_queue := (command_queue ad)[nat ?t := ?c], command_queue_tail := (?t + 1) mod 8\<rparr>"
    using nf by (simp add: enqueue_command_def nt cmd_overwrite)
  show "queue_ok (enqueue_command ad ty ord rw)"
    using ok by (simp add: eq queue_ok_def MAX_COMMANDS_def)
  have occ: "nat (((?t + 1) mod 8 - ?h) mod 8) = Suc (nat ((?t - ?h) mod 8))"
    using room by (intro ring_grow [OF b]) (simp add: occupancy_def MAX_COMMANDS_def)
  show "occupancy (enqueue_command ad ty ord rw) = Suc (occupancy ad)"
    using occ by (simp add: eq occupancy_def MAX_COMMANDS_def)
  have old: "(command_queue ad)[nat ?t := ?c] ! nat ((?h + int i) mod 8) =
               command_queue ad ! nat ((?h + int i) mod 8)"
    if "i < nat ((?t - ?h) mod 8)" for i
  proof -
    have "(?h + int i) mod 8 \<noteq> ?t"
      using that by (intro ring_distinct [OF b]) simp_all
    moreover have "0 \<le> (?h + int i) mod 8" by simp
    ultimately have "nat ((?h + int i) mod 8) \<noteq> nat ?t" using b by linarith
    then show ?thesis by simp
  qed
  have new: "(command_queue ad)[nat ?t := ?c] ! nat ((?h + int (nat ((?t - ?h) mod 8))) mod 8) = ?c"
    using ring_tail [OF b] b len by simp
  show "pending_commands (enqueue_command ad ty ord rw) = pending_commands ad @ [?c]"
    using old new
    by (simp add: eq pending_commands_def occupancy_def MAX_COMMANDS_def occ)
qed

lemma enqueue_all_pending:
  "queue_ok ad \<Longrightarrow>
     queue_ok (enqueue_all ad cs)
     \<and> command_queue_head (enqueue_all ad cs) = command_queue_head ad
     \<and> pending_commands (enqueue_all ad cs) = pending_commands ad @ take (7 - occupancy ad) cs"
proof (induction cs arbitrary: ad)
  case Nil
  then show ?case by (simp add: enqueue_all_def)
next
  case (Cons c cs)
  let ?ad1 = "enqueue_command ad (cmd_type c) (cmd_order c) (cmd_row c)"
  have step: "enqueue_all ad (c # cs) = enqueue_all ?ad1 cs" by (simp add: enqueue_all_def)
  show ?case
  proof (cases "occupancy ad = 7")
    case True
    then have "?ad1 = ad" using Cons.prems by (rule enqueue_full_unchanged [rotated])
    then show ?thesis using Cons.IH [OF Cons.prems] True by (simp add: step)
  next
    case False
    note r = enqueue_room [OF Cons.prems False, of "cmd_type c" "cmd_order c" "cmd_row c"]
    have h: "command_queue_head ?ad1 = command_queue_head ad"
      by (simp add: enqueue_command_def Let_def)
    have lt: "occupancy ad < 7" using False occupancy_le [of ad] by linarith
    then have "7 - occupancy ad = Suc (7 - Suc (occupancy ad))" by linarith
    then have tk: "take (7 - occupancy ad) (c # cs) = c # take (7 - Suc (occupancy ad)) cs"
      by (simp only: take_Suc_Cons)
    show ?thesis using Cons.IH [OF r(1)] r(2,3) h by (simp add: step tk)
  qed
qed


lemma reapply_mutes_queue:
  "command_queue (reapply_mutes ad) = command_queue ad"
  "command_queue_head (reapply_mutes ad) = command_queue_head ad"
  "command_queue_tail (reapply_mutes ad) = command_queue_tail ad"
  by (simp_all add: reapply_mutes_def)

lemma reapply_mutes_head:
  "reapply_mutes (ad\<lparr>command_queue_head := h\<rparr>) = (reapply_mutes ad)\<lparr>command_queue_head := h\<rparr>"
  by (simp add: reapply_mutes_def)

lemma jump_to_queue:
  "command_queue (jump_to ad ord rw) = command_queue ad"
  "command_queue_head (jump_to ad ord rw) = command_queue_head ad"
  "command_queue_tail (jump_to ad ord rw) = command_queue_tail ad"
  by (simp_all add: jump_to_def Let_def reapply_mutes_queue)

lemma jump_to_head:
  "jump_to (ad\<lparr>command_queue_head := h\<rparr>) ord rw = (jump_to ad ord rw)\<lparr>command_queue_head := h\<rparr>"
  by (simp add: jump_to_def Let_def reapply_mutes_def)

lemma apply_command_queue:
  "command_queue (apply_command ad c) = command_queue ad"
  "command_queue_head (apply_command ad c) = command_queue_head ad"
  "command_queue_tail (apply_command ad c) = command_queue_tail ad"
  by (simp_all add: apply_command_def jump_to_queue split: PlaybackCommandType.splits)

lemma apply_command_head:
  "apply_command (ad\<lparr>command_queue_head := h\<rparr>) c = (apply_command ad c)\<lparr>command_queue_head := h\<rparr>"
  by (simp add: apply_command_def jump_to_def Let_def reapply_mutes_def split: PlaybackCommandType.splits)

lemma foldl_apply_command_queue:
  "command_queue (foldl apply_command ad cs) = command_queue ad"
  "command_queue_head (foldl apply_command ad cs) = command_queue_head ad"
  "command_queue_tail (foldl apply_command ad cs) = command_queue_tail ad"
  by (induction cs arbitrary: ad) (simp_all add: apply_command_queue)

lemma foldl_apply_command_head:
  "foldl apply_command (ad\<lparr>command_queue_head := h\<rparr>) cs =
     (foldl apply_command ad cs)\<lparr>command_queue_head := h\<rparr>"
  by (induction cs arbitrary: ad) (simp_all add: apply_command_head)

lemma process_one_queue:
  assumes ok: "queue_ok ad" and ne: "command_queue_head ad \<noteq> command_queue_tail ad"
  shows "queue_ok (process_one ad)"
    and "Suc (occupancy (process_one ad)) = occupancy ad"
    and "pending_commands ad =
           command_queue ad ! nat (command_queue_head ad) # pending_commands (process_one ad)"
proof -
  let ?h = "command_queue_head ad" and ?t = "command_queue_tail ad"
  have b: "0 \<le> ?h" "?h < 8" "0 \<le> ?t" "?t < 8"
    using ok by (simp_all add: queue_ok_def MAX_COMMANDS_def)
  have nh: "(?h + 1) smod MAX_COMMANDS = (?h + 1) mod 8"
    using b by (simp add: next_index) (simp add: MAX_COMMANDS_def)
  show "queue_ok (process_one ad)"
    using ok by (simp add: process_one_def queue_ok_def apply_command_queue nh) (simp add: MAX_COMMANDS_def)
  have occ: "Suc (nat ((?t - (?h + 1) mod 8) mod 8)) = nat ((?t - ?h) mod 8)"
    using ne by (intro ring_shrink [OF b])
  show "Suc (occupancy (process_one ad)) = occupancy ad"
    using occ by (simp add: process_one_def occupancy_def apply_command_queue nh) (simp add: MAX_COMMANDS_def)
  let ?m = "nat ((?t - (?h + 1) mod 8) mod 8)"
  let ?f = "\<lambda>i. command_queue ad ! nat ((?h + int i) mod 8)"
  have po: "process_one ad =
      (apply_command ad (command_queue ad ! nat ?h))\<lparr>command_queue_head := (?h + 1) mod 8\<rparr>"
    by (simp add: process_one_def nh)
  have "pending_commands (process_one ad) =
      map (\<lambda>i. command_queue ad ! nat (((?h + 1) mod 8 + int i) mod 8)) [0..<?m]"
    by (simp add: po pending_commands_def occupancy_def apply_command_queue MAX_COMMANDS_def)
  also have "\<dots> = map (\<lambda>i. ?f (Suc i)) [0..<?m]"
    by (simp only: ring_shift)
  finally have rest: "pending_commands (process_one ad) = map (\<lambda>i. ?f (Suc i)) [0..<?m]" .
  have "pending_commands ad = map ?f [0..<Suc ?m]"
    by (simp only: pending_commands_def occupancy_def MAX_COMMANDS_def occ)
  also have "\<dots> = ?f 0 # map (\<lambda>i. ?f (Suc i)) [0..<?m]"
    by (simp only: upt_conv_Cons zero_less_Suc map_Suc_upt [symmetric] list.map map_map comp_def)
  finally show "pending_commands ad =
      command_queue ad ! nat ?h # pending_commands (process_one ad)"
    using b by (simp add: rest mod_pos_pos_trivial)
qed

lemma process_commands_drain:
  "queue_ok ad \<Longrightarrow>
     process_commands ad =
       Some ((foldl apply_command ad (pending_commands ad))
               \<lparr>command_queue_head := command_queue_tail ad\<rparr>)"
proof (induction n \<equiv> "occupancy ad" arbitrary: ad)
  case 0
  then have eq: "command_queue_head ad = command_queue_tail ad"
    using occupancy_zero [of ad] by simp
  have "pending_commands ad = []" using 0 by (simp add: pending_commands_def)
  moreover have "ad\<lparr>command_queue_head := command_queue_tail ad\<rparr> = ad"
    using eq [symmetric] by simp
  ultimately show ?case using eq by (subst process_commands.simps) simp
next
  case (Suc n)
  then have ne: "command_queue_head ad \<noteq> command_queue_tail ad"
    using occupancy_zero [of ad] by auto
  note p = process_one_queue [OF Suc.prems ne]
  have n: "n = occupancy (process_one ad)" using p(2) Suc.hyps(2) by simp
  have t: "command_queue_tail (process_one ad) = command_queue_tail ad"
    by (simp add: process_one_def apply_command_queue)
  have "process_commands ad = process_commands (process_one ad)"
    using ne by (subst process_commands.simps) simp
  also have "\<dots> = Some ((foldl apply_command (process_one ad) (pending_commands (process_one ad)))
               \<lparr>command_queue_head := command_queue_tail ad\<rparr>)"
    using Suc.hyps(1) [OF n p(1)] by (simp add: t)
  also have "foldl apply_command (process_one ad) (pending_commands (process_one ad)) =
      (foldl apply_command ad (pending_commands ad))
        \<lparr>command_queue_head := (command_queue_head ad + 1) smod MAX_COMMANDS\<rparr>"
    by (subst p(3)) (simp add: process_one_def foldl_apply_command_head)
  finally show ?case by simp
qed

lemma initial_control_queue_ok: "queue_ok (initial_control e nch iok)"
  by (simp add: queue_ok_def initial_control_def MAX_COMMANDS_def)

lemma occupancy_empty:
  "command_queue_head ad = command_queue_tail ad \<Longrightarrow> occupancy ad = 0"
  by (simp add: occupancy_def)

lemma nine_commands_length: "length nine_commands = 9"
  by (simp add: nine_commands_def)

lemma example_control_empty:
  "queue_ok example_control"
  "command_queue_head example_control = command_queue_tail example_control"
  "occupancy example_control = 0"
  by (simp_all add: example_control_def initial_control_queue_ok)
     (simp_all add: initial_control_def occupancy_def)

section \<open>Engine calls, jumps and ticks\<close>

lemma set_channel_volume_simps:
  "calls (set_channel_volume e ch v) = calls e @ [SetChannelVolume ch v]"
  "channel_volume (set_channel_volume e ch v) = (channel_volume e)(ch := v)"
  "current_order (set_channel_volume e ch v) = current_order e"
  "current_row (set_channel_volume e ch v) = current_row e"
  "order_pattern (set_channel_volume e ch v) = order_pattern e"
  "pattern_num_rows (set_channel_volume e ch v) = pattern_num_rows e"
  "num_orders (set_channel_volume e ch v) = num_orders e"
  by (simp_all add: set_channel_volume_def)

lemma set_position_simps:
  "calls (set_position_order_row e ord rw) = calls e @ [SetPosition ord rw]"
  "channel_volume (set_position_order_row e ord rw) = channel_volume e"
  "current_order (set_position_order_row e ord rw) = ord"
  "current_row (set_position_order_row e ord rw) = rw"
  "order_pattern (set_position_order_row e ord rw) = order_pattern e"
  "pattern_num_rows (set_position_order_row e ord rw) = pattern_num_rows e"
  "num_orders (set_position_order_row e ord rw) = num_orders e"
  by (simp_all add: set_position_order_row_def)

lemma push_volumes:
  fixes g :: "int \<Rightarrow> real"
  defines "push \<equiv> (\<lambda>e n. foldl (\<lambda>e ch. set_channel_volume e ch (g ch)) e (map int [0..<n]))"
  shows "calls (push e n) = calls e @ map (\<lambda>ch. SetChannelVolume (int ch) (g (int ch))) [0..<n]"
    and "channel_volume (push e n) = (\<lambda>c. if 0 \<le> c \<and> c < int n then g c else channel_volume e c)"
    and "current_order (push e n) = current_order e"
    and "current_row (push e n) = current_row e"
    and "order_pattern (push e n) = order_pattern e"
    and "pattern_num_rows (push e n) = pattern_num_rows e"
    and "num_orders (push e n) = num_orders e"
  unfolding push_def
  by (induction n) (auto simp: set_channel_volume_simps fun_eq_iff)

lemma reapply_mutes_engine:
  "calls (modext (reapply_mutes ad)) = calls (modext ad) @ reapply_calls ad"
  "current_order (modext (reapply_mutes ad)) = current_order (modext ad)"
  "current_row (modext (reapply_mutes ad)) = current_row (modext ad)"
  "order_pattern (modext (reapply_mutes ad)) = order_pattern (modext ad)"
  "pattern_num_rows (modext (reapply_mutes ad)) = pattern_num_rows (modext ad)"
  "num_orders (modext (reapply_mutes ad)) = num_orders (modext ad)"
  by (simp_all add: reapply_mutes_def reapply_calls_def push_volumes)

lemma reapply_mutes_volume:
  "channel_volume (modext (reapply_mutes ad)) =
     (\<lambda>c. if interactive_ok ad \<noteq> 0 \<and> 0 \<le> c \<and> c < num_channels ad
          then mute_gain (mute_states ad) c else channel_volume (modext ad) c)"
  by (auto simp: reapply_mutes_def push_volumes fun_eq_iff)

lemma reapply_mutes_common:
  "interactive_ok (reapply_mutes ad) = interactive_ok ad"
  "num_channels (reapply_mutes ad) = num_channels ad"
  "mute_states (reapply_mutes ad) = mute_states ad"
  "pattern_mode (reapply_mutes ad) = pattern_mode ad"
  "loop_pattern (reapply_mutes ad) = loop_pattern ad"
  "loop_order (reapply_mutes ad) = loop_order ad"
  "paused (reapply_mutes ad) = paused ad"
  by (simp_all add: reapply_mutes_def)

lemma reapply_mutes_fields:
  "queued_order (reapply_mutes ad) = queued_order ad"
  "queued_row (reapply_mutes ad) = queued_row ad"
  "has_queued_jump (reapply_mutes ad) = has_queued_jump ad"
  "loop_till_row (reapply_mutes ad) = loop_till_row ad"
  "is_looping_till (reapply_mutes ad) = is_looping_till ad"
  "pending_pattern_mode_order (reapply_mutes ad) = pending_pattern_mode_order ad"
  by (simp_all add: reapply_mutes_def)

lemma reapply_mutes_control:
  "prev_row (reapply_mutes s) = prev_row s"
  "running (reapply_mutes s) = running s"
  by (simp_all add: reapply_mutes_def)

lemma reapply_mutes_full:
  "do_pattern_loop (reapply_mutes f) = do_pattern_loop f"
  "full_prev_row (reapply_mutes g) = full_prev_row g"
  by (simp_all add: reapply_mutes_def)

lemma muted_example_fields:
  "interactive_ok muted_example = 1"
  "num_channels muted_example = 3"
  "mute_states muted_example = [0, 1, 0]"
  by (simp_all add: muted_example_def toggle_channel_def example_control_def
      initial_control_def c_not_def Let_def numeral_3_eq_3)

lemma digit_key_player:
  assumes "p_interactive_ok s \<noteq> 0" "key CHR ''1'' \<le> k" "k \<le> key CHR ''9''"
  shows "player_handle_key k s =
     (let ch = k - key CHR ''1''
      in if ch < p_num_channels s then
           (let ms = (p_mute_states s)[nat ch := c_not (p_mute_states s ! nat ch)]
            in print (DebugChannel (ch + 1) (ms ! nat ch))
                 (s\<lparr>p_mute_states := ms,
                    p_modext := set_channel_volume (p_modext s) ch (mute_gain ms ch)\<rparr>))
         else print (DebugOutOfRange (ch + 1) (p_num_channels s)) s)"
  using assms by (simp add: player_handle_key_def)

lemma digit_key_control:
  assumes "interactive_ok s \<noteq> 0" "key CHR ''1'' \<le> k" "k \<le> key CHR ''9''"
  shows "handle_key k s = toggle_channel s (k - key CHR ''1'')"
  using assms by (simp add: handle_key_def)

lemma digit_key_prints:
  assumes "interactive_ok s \<noteq> 0" "key CHR ''1'' \<le> k" "k \<le> key CHR ''9''"
  shows "handle_key_prints k s =
     (let ch = k - key CHR ''1''
      in if ch < num_channels s then
           (let ms = (mute_states s)[nat ch := c_not (mute_states s ! nat ch)]
            in [ChannelMuted (ch + 1) (ms ! nat ch)])
         else [])"
  using assms by (simp add: handle_key_prints_def)

lemma example_player_fields:
  "p_interactive_ok example_player = 1"
  "p_num_channels example_player = 3"
  "p_mute_states example_player = [0, 0, 0]"
  "out example_player = []"
  by (simp_all add: example_player_def initial_player_def numeral_3_eq_3)

lemma example_control_fields:
  "interactive_ok example_control = 1"
  "num_channels example_control = 3"
  "mute_states example_control = [0, 0, 0]"
  by (simp_all add: example_control_def initial_control_def numeral_3_eq_3)

lemma jump_to_engine:
  "calls (modext (jump_to ad ord rw)) = calls (modext ad) @ jump_calls ad ord rw"
  "current_order (modext (jump_to ad ord rw)) = ord"
  "current_row (modext (jump_to ad ord rw)) = rw"
  "order_pattern (modext (jump_to ad ord rw)) = order_pattern (modext ad)"
  "pattern_num_rows (modext (jump_to ad ord rw)) = pattern_num_rows (modext ad)"
  "num_orders (modext (jump_to ad ord rw)) = num_orders (modext ad)"
  by (simp_all add: jump_to_def Let_def reapply_mutes_engine set_position_simps jump_calls_def
      reapply_calls_def)

lemma jump_to_common:
  "interactive_ok (jump_to ad ord rw) = interactive_ok ad"
  "num_channels (jump_to ad ord rw) = num_channels ad"
  "mute_states (jump_to ad ord rw) = mute_states ad"
  "pattern_mode (jump_to ad ord rw) = pattern_mode ad"
  "loop_pattern (jump_to ad ord rw) = loop_pattern ad"
  "loop_order (jump_to ad ord rw) = loop_order ad"
  "paused (jump_to ad ord rw) = paused ad"
  by (simp_all add: jump_to_def Let_def reapply_mutes_common)

lemma jump_to_fields:
  "queued_order (jump_to ad ord rw) = queued_order ad"
  "queued_row (jump_to ad ord rw) = queued_row ad"
  "has_queued_jump (jump_to ad ord rw) = has_queued_jump ad"
  "loop_till_row (jump_to ad ord rw) = loop_till_row ad"
  "is_looping_till (jump_to ad ord rw) = is_looping_till ad"
  "pending_pattern_mode_order (jump_to ad ord rw) = pending_pattern_mode_order ad"
  by (simp_all add: jump_to_def Let_def reapply_mutes_fields)

lemma jump_to_full:
  "do_pattern_loop (jump_to f ord rw) = do_pattern_loop f"
  "full_prev_row (jump_to g ord rw) = full_prev_row g"
  by (simp_all add: jump_to_def Let_def reapply_mutes_full)

lemma jump_to_control:
  "prev_row (jump_to s ord rw) = prev_row s"
  "running (jump_to s ord rw) = running s"
  by (simp_all add: jump_to_def Let_def reapply_mutes_control)

lemma jump_calls_cong:
  "interactive_ok a = interactive_ok b \<Longrightarrow> num_channels a = num_channels b \<Longrightarrow>
     mute_states a = mute_states b \<Longrightarrow> jump_calls a ord rw = jump_calls b ord rw"
  by (simp add: jump_calls_def reapply_calls_def)

lemmas jump_simps = jump_to_engine jump_to_common jump_to_fields jump_to_control

lemma pattern_loop_tick_switch:
  assumes "wrap_seen s" "pending_pattern_mode_order s \<noteq> - 1"
    "pending_pattern_mode_order s \<noteq> loop_order s"
  shows "loop_order (pattern_loop_tick s) = pending_pattern_mode_order s"
    and "loop_pattern (pattern_loop_tick s) = order_pattern (modext s) (pending_pattern_mode_order s)"
    and "pending_pattern_mode_order (pattern_loop_tick s) = - 1"
    and "calls (modext (pattern_loop_tick s)) =
           calls (modext s) @ jump_calls s (pending_pattern_mode_order s) 0
             @ (if current_order (modext s) \<noteq> pending_pattern_mode_order s
                then jump_calls s (pending_pattern_mode_order s) 0 else [])"
    and "position (modext (pattern_loop_tick s)) = (pending_pattern_mode_order s, 0)"
    and "prev_row (pattern_loop_tick s) =
           (if current_order (modext s) \<noteq> pending_pattern_mode_order s then - 1 else 0)"
  using assms
  by (simp_all add: pattern_loop_tick_def wrap_seen_def Let_def jump_simps position_def
      jump_calls_cong [of "jump_to a ord rw" a for a ord rw] jump_calls_def reapply_calls_def)

lemma pattern_loop_tick_stay:
  assumes "\<not> (wrap_seen s \<and> pending_pattern_mode_order s \<noteq> - 1
             \<and> pending_pattern_mode_order s \<noteq> loop_order s)"
  shows "loop_order (pattern_loop_tick s) = loop_order s"
    and "loop_pattern (pattern_loop_tick s) = loop_pattern s"
    and "pending_pattern_mode_order (pattern_loop_tick s) = pending_pattern_mode_order s"
    and "calls (modext (pattern_loop_tick s)) =
           calls (modext s) @ (if wrap_seen s then jump_calls s (loop_order s) 0 else [])
             @ (if current_order (modext s) \<noteq> loop_order s
                then jump_calls s (loop_order s) 0 else [])"
    and "wrap_seen s \<or> current_order (modext s) \<noteq> loop_order s \<Longrightarrow>
           position (modext (pattern_loop_tick s)) = (loop_order s, 0)"
    and "\<not> wrap_seen s \<Longrightarrow> current_order (modext s) = loop_order s \<Longrightarrow>
           modext (pattern_loop_tick s) = modext s"
    and "prev_row (pattern_loop_tick s) =
           (if current_order (modext s) \<noteq> loop_order s then - 1 else current_row (modext s))"
  using assms
  by (auto simp add: pattern_loop_tick_def wrap_seen_def Let_def jump_simps position_def
      jump_calls_def reapply_calls_def)

lemma pattern_loop_tick_fields:
  "pattern_mode (pattern_loop_tick s) = pattern_mode s"
  "is_looping_till (pattern_loop_tick s) = is_looping_till s"
  "interactive_ok (pattern_loop_tick s) = interactive_ok s"
  "mute_states (pattern_loop_tick s) = mute_states s"
  "num_channels (pattern_loop_tick s) = num_channels s"
  by (simp_all add: pattern_loop_tick_def Let_def jump_simps)

lemma tick_pattern_loop:
  "pattern_mode s \<noteq> 0 \<Longrightarrow> is_looping_till s = 0 \<Longrightarrow> tick s = pattern_loop_tick s"
  by (simp add: tick_def)

lemma tick_loop_till_row: "is_looping_till s \<noteq> 0 \<Longrightarrow> tick s = loop_till_row_tick s"
  by (simp add: tick_def)

lemma apply_queue_order:
  "cmd_type c = PLAYBACK_QUEUE_ORDER \<Longrightarrow>
     apply_command s c =
       (if pattern_mode s \<noteq> 0 then s\<lparr>pending_pattern_mode_order := cmd_order c\<rparr>
        else s\<lparr>queued_order := cmd_order c, queued_row := cmd_row c, has_queued_jump := 1\<rparr>)"
  by (simp add: apply_command_def)

lemma apply_loop_till_row:
  assumes "cmd_type c = PLAYBACK_LOOP_TILL_ROW"
  shows "is_looping_till (apply_command s c) = 1"
    and "loop_order (apply_command s c) = cmd_order c"
    and "loop_pattern (apply_command s c) = order_pattern (modext s) (cmd_order c)"
    and "loop_till_row (apply_command s c) = cmd_row c"
    and "pattern_mode (apply_command s c) = pattern_mode s"
    and "pending_pattern_mode_order (apply_command s c) = pending_pattern_mode_order s"
    and "position (modext (apply_command s c)) = (cmd_order c, 0)"
    and "calls (modext (apply_command s c)) = calls (modext s) @ jump_calls s (cmd_order c) 0"
  using assms
  by (simp_all add: apply_command_def jump_simps position_def jump_calls_def reapply_calls_def)

lemma loop_till_row_tick_cases:
  shows "is_looping_till s \<noteq> 0 \<Longrightarrow> (is_looping_till (loop_till_row_tick s) = 0 \<longleftrightarrow>
           current_order (modext s) = loop_order s \<and> current_row (modext s) = loop_till_row s)"
    and "current_order (modext s) = loop_order s \<Longrightarrow> current_row (modext s) = loop_till_row s \<Longrightarrow>
           modext (loop_till_row_tick s) = modext s"
    and "current_order (modext s) = loop_order s \<Longrightarrow> current_row (modext s) \<noteq> loop_till_row s \<Longrightarrow>
           wrap_seen s \<Longrightarrow>
           calls (modext (loop_till_row_tick s)) = calls (modext s) @ jump_calls s (loop_order s) 0
           \<and> position (modext (loop_till_row_tick s)) = (loop_order s, 0)"
    and "current_order (modext s) \<noteq> loop_order s \<Longrightarrow>
           modext (loop_till_row_tick s) = modext s \<and> prev_row (loop_till_row_tick s) = - 1
           \<and> is_looping_till (loop_till_row_tick s) = is_looping_till s"
    and "\<not> wrap_seen s \<Longrightarrow> modext (loop_till_row_tick s) = modext s"
    and "current_order (modext s) = loop_order s \<Longrightarrow>
           prev_row (loop_till_row_tick s) = current_row (modext s)"
  by (auto simp add: loop_till_row_tick_def wrap_seen_def Let_def jump_simps position_def)

lemma loop_till_row_tick_fields:
  "pattern_mode (loop_till_row_tick s) = pattern_mode s"
  "loop_order (loop_till_row_tick s) = loop_order s"
  "loop_pattern (loop_till_row_tick s) = loop_pattern s"
  "loop_till_row (loop_till_row_tick s) = loop_till_row s"
  "pending_pattern_mode_order (loop_till_row_tick s) = pending_pattern_mode_order s"
  by (simp_all add: loop_till_row_tick_def Let_def jump_simps)

lemma position_calls_jump_calls [simp]:
  "position_calls (jump_calls ad ord rw) = [SetPosition ord rw]"
  by (simp add: position_calls_def jump_calls_def reapply_calls_def filter_map comp_def)

lemma position_calls_append [simp]:
  "position_calls (xs @ ys) = position_calls xs @ position_calls ys"
  by (simp add: position_calls_def)

lemma at_wrap_fields:
  "pattern_mode at_wrap = 1" "is_looping_till at_wrap = 0" "loop_order at_wrap = 0"
  "pending_pattern_mode_order at_wrap = 1" "wrap_seen at_wrap"
  "current_order (modext at_wrap) = 1" "calls (modext at_wrap) = []"
  "order_pattern (modext at_wrap) = (\<lambda>ord. ord)"
  by (simp_all add: at_wrap_def example_control_def initial_control_def example_module_def
      wrap_seen_def)

lemma mid_pattern_fields:
  "pattern_mode mid_pattern = 1" "is_looping_till mid_pattern = 0" "loop_order mid_pattern = 0"
  "pending_pattern_mode_order mid_pattern = 1" "\<not> wrap_seen mid_pattern"
  "current_order (modext mid_pattern) = 0" "calls (modext mid_pattern) = []"
  "loop_pattern mid_pattern = 0" "current_row (modext mid_pattern) = 4"
  by (simp_all add: mid_pattern_def example_control_def initial_control_def example_module_def
      wrap_seen_def)

lemma drifted_fields:
  "pattern_mode drifted = 1" "is_looping_till drifted = 0" "loop_order drifted = 0"
  "pending_pattern_mode_order drifted = - 1" "\<not> wrap_seen drifted"
  "current_order (modext drifted) = 1" "calls (modext drifted) = []"
  "current_row (modext drifted) = 2"
  by (simp_all add: drifted_def example_control_def initial_control_def example_module_def
      wrap_seen_def)

lemma looping_till_fields:
  "pattern_mode looping_till = 1" "is_looping_till looping_till = 1" "loop_order looping_till = 2"
  "pending_pattern_mode_order looping_till = - 1" "loop_pattern looping_till = 2"
  "loop_till_row looping_till = 5" "position (modext looping_till) = (2, 0)"
  by (simp_all add: looping_till_def apply_loop_till_row loop_till_def)
     (simp_all add: example_control_def initial_control_def example_module_def)

lemma full_tick_drift:
  assumes "pattern_mode f \<noteq> 0" "current_order (modext f) \<noteq> loop_order f"
  shows "full_tick f = f\<lparr>do_pattern_loop := 1, full_prev_row := - 1\<rparr>"
    and "position (modext (full_consume_loop (full_tick f))) = (loop_order f, 0)"
    and "calls (modext (full_consume_loop (full_tick f))) =
           calls (modext f) @ jump_calls f (loop_order f) 0"
  using assms
  by (simp_all add: full_tick_def full_consume_loop_def Let_def position_def jump_to_engine
      jump_to_common jump_calls_def reapply_calls_def)

lemma full_drifted_fields:
  "pattern_mode full_drifted = 1" "loop_order full_drifted = 0"
  "current_order (modext full_drifted) = 1" "calls (modext full_drifted) = []"
  by (simp_all add: full_drifted_def example_module_def)

lemma escaped_fields:
  "is_looping_till escaped = 1" "loop_order escaped = 2" "current_order (modext escaped) = 3"
  "loop_till_row escaped = 5"
proof -
  let ?l = "apply_command example_control (loop_till 2 5)"
  have c: "cmd_type (loop_till 2 5) = PLAYBACK_LOOP_TILL_ROW" "cmd_order (loop_till 2 5) = 2"
    "cmd_row (loop_till 2 5) = 5"
    and q: "cmd_type (queue_order 3 0) = PLAYBACK_QUEUE_ORDER" "cmd_order (queue_order 3 0) = 3"
    "cmd_row (queue_order 3 0) = 0"
    by (simp_all add: loop_till_def queue_order_def)
  note a = apply_loop_till_row [OF c(1), of example_control]
  have "pattern_mode example_control = 0"
    by (simp add: example_control_def initial_control_def)
  then have pm: "pattern_mode ?l = 0" by (simp only: a(5))
  have e: "escaped = (jump_to (?l\<lparr>queued_order := 3, queued_row := 0, has_queued_jump := 1\<rparr>) 3 0)
      \<lparr>has_queued_jump := 0\<rparr>"
    by (simp add: escaped_def apply_queue_order [OF q(1)] q pm consume_queued_jump_def)
  show "is_looping_till escaped = 1" "loop_order escaped = 2"
    "current_order (modext escaped) = 3" "loop_till_row escaped = 5"
    by (simp_all add: e jump_simps a c)
qed

lemma at_stop_row_fields:
  "is_looping_till at_stop_row = 1" "loop_order at_stop_row = 2"
  "current_order (modext at_stop_row) = 2" "current_row (modext at_stop_row) = 5"
  "loop_till_row at_stop_row = 5" "pattern_mode at_stop_row = 1"
  by (simp_all add: at_stop_row_def looping_till_fields)

lemma wrapped_in_loop_fields:
  "is_looping_till wrapped_in_loop = 1" "loop_order wrapped_in_loop = 2"
  "current_order (modext wrapped_in_loop) = 2" "current_row (modext wrapped_in_loop) = 0"
  "loop_till_row wrapped_in_loop = 5" "wrap_seen wrapped_in_loop"
  using looping_till_fields(7)
  by (simp_all add: wrapped_in_loop_def looping_till_fields wrap_seen_def position_def)
     (simp add: looping_till_def apply_command_def loop_till_def jump_simps example_control_def
        initial_control_def example_module_def)

lemma zero_loop_fields:
  "is_looping_till zero_loop = 1" "loop_till_row zero_loop = 0" "loop_order zero_loop = 2"
  "current_order (modext zero_loop) = 2" "current_row (modext zero_loop) = 0"
  using apply_loop_till_row(7) [of "loop_till 2 0" example_control]
  by (simp_all add: zero_loop_def apply_loop_till_row loop_till_def position_def)

lemma enqueue_command_fields:
  "modext (enqueue_command ad ty ord rw) = modext ad"
  "interactive_ok (enqueue_command ad ty ord rw) = interactive_ok ad"
  "num_channels (enqueue_command ad ty ord rw) = num_channels ad"
  "mute_states (enqueue_command ad ty ord rw) = mute_states ad"
  "pattern_mode (enqueue_command ad ty ord rw) = pattern_mode ad"
  "command_queue_head (enqueue_command ad ty ord rw) = command_queue_head ad"
  by (simp_all add: enqueue_command_def Let_def)

lemma position_calls_single [simp]:
  "position_calls [SetChannelVolume ch v] = []"
  "position_calls [SetPosition ord rw] = [SetPosition ord rw]"
  "position_calls [] = []"
  by (simp_all add: position_calls_def)

lemma set_all_engine:
  fixes f :: "int list \<Rightarrow> int \<Rightarrow> int list" and v :: real
  defines "run \<equiv> (\<lambda>s chs. foldl (\<lambda>a ch. a\<lparr>mute_states := f (mute_states a) ch,
                       modext := set_channel_volume (modext a) ch v\<rparr>) s chs)"
  shows "current_order (modext (run s chs)) = current_order (modext s)"
    and "current_row (modext (run s chs)) = current_row (modext s)"
    and "position_calls (calls (modext (run s chs))) = position_calls (calls (modext s))"
  unfolding run_def
  by (induction chs arbitrary: s) (simp_all add: set_channel_volume_simps)

lemma mute_all_engine:
  "current_order (modext (mute_all s)) = current_order (modext s)"
  "current_row (modext (mute_all s)) = current_row (modext s)"
  "position_calls (calls (modext (mute_all s))) = position_calls (calls (modext s))"
  unfolding mute_all_def
  by (rule set_all_engine [where f = "\<lambda>ms ch. ms[nat ch := 1]"])+

lemma unmute_all_engine:
  "current_order (modext (unmute_all s)) = current_order (modext s)"
  "current_row (modext (unmute_all s)) = current_row (modext s)"
  "position_calls (calls (modext (unmute_all s))) = position_calls (calls (modext s))"
  unfolding unmute_all_def
  by (rule set_all_engine [where f = "\<lambda>ms ch. ms[nat ch := 0]"])+

lemma toggle_channel_engine:
  "current_order (modext (toggle_channel s ch)) = current_order (modext s)"
  "current_row (modext (toggle_channel s ch)) = current_row (modext s)"
  "position_calls (calls (modext (toggle_channel s ch))) = position_calls (calls (modext s))"
  by (simp_all add: toggle_channel_def Let_def set_channel_volume_simps)

lemma handle_key_no_jump:
  assumes "k \<noteq> key CHR ''r''" "k \<noteq> key CHR ''R''"
  shows "current_order (modext (handle_key k s)) = current_order (modext s)"
    and "current_row (modext (handle_key k s)) = current_row (modext s)"
    and "position_calls (calls (modext (handle_key k s))) = position_calls (calls (modext s))"
  using assms
  by (simp_all add: handle_key_def Let_def enqueue_command_fields mute_all_engine
      unmute_all_engine toggle_channel_engine)

lemma handle_key_retrigger:
  assumes "k = key CHR ''r'' \<or> k = key CHR ''R''"
  shows "handle_key k s = jump_to s (current_order (modext s)) 0"
  using assms by (auto simp add: handle_key_def)

lemma mid_song_fields:
  "position (modext mid_song) = (2, 5)" "current_order (modext mid_song) = 2"
  "calls (modext mid_song) = []" "pattern_mode mid_song = 0"
  by (simp_all add: mid_song_def example_control_def initial_control_def example_module_def
      position_def)

lemma apply_command_common:
  "interactive_ok (apply_command s c) = interactive_ok s"
  "num_channels (apply_command s c) = num_channels s"
  "mute_states (apply_command s c) = mute_states s"
  "pattern_mode (apply_command s c) = pattern_mode s"
  by (simp_all add: apply_command_def jump_simps split: PlaybackCommandType.splits)

lemma apply_command_calls:
  "calls (modext (apply_command s c)) =
     calls (modext s) @
       (if cmd_type c = PLAYBACK_LOOP_TILL_ROW then jump_calls s (cmd_order c) 0 else [])"
  by (simp add: apply_command_def jump_simps jump_calls_def reapply_calls_def
      split: PlaybackCommandType.splits)

lemma foldl_apply_command_common:
  "interactive_ok (foldl apply_command s cs) = interactive_ok s"
  "num_channels (foldl apply_command s cs) = num_channels s"
  "mute_states (foldl apply_command s cs) = mute_states s"
  "pattern_mode (foldl apply_command s cs) = pattern_mode s"
  by (induction cs arbitrary: s) (simp_all add: apply_command_common)

lemma foldl_apply_command_calls:
  "calls (modext (foldl apply_command s cs)) =
     calls (modext s) @
       concat (map (\<lambda>c. if cmd_type c = PLAYBACK_LOOP_TILL_ROW
                         then jump_calls s (cmd_order c) 0 else []) cs)"
proof (induction cs arbitrary: s)
  case Nil
  show ?case by simp
next
  case (Cons c cs)
  have j: "jump_calls (apply_command s c) ord rw = jump_calls s ord rw" for ord rw
    by (rule jump_calls_cong) (simp_all add: apply_command_common)
  show ?case by (simp add: Cons.IH apply_command_calls j cong: if_cong)
qed

lemma foldl_apply_command_last:
  assumes "cs \<noteq> []"
  shows "cmd_type (last cs) = PLAYBACK_QUEUE_ORDER \<Longrightarrow> pattern_mode s \<noteq> 0 \<Longrightarrow>
           pending_pattern_mode_order (foldl apply_command s cs) = cmd_order (last cs)"
    and "cmd_type (last cs) = PLAYBACK_QUEUE_ORDER \<Longrightarrow> pattern_mode s = 0 \<Longrightarrow>
           queued_order (foldl apply_command s cs) = cmd_order (last cs)
           \<and> queued_row (foldl apply_command s cs) = cmd_row (last cs)
           \<and> has_queued_jump (foldl apply_command s cs) = 1"
    and "cmd_type (last cs) = PLAYBACK_LOOP_TILL_ROW \<Longrightarrow>
           loop_order (foldl apply_command s cs) = cmd_order (last cs)
           \<and> loop_till_row (foldl apply_command s cs) = cmd_row (last cs)
           \<and> is_looping_till (foldl apply_command s cs) = 1
           \<and> position (modext (foldl apply_command s cs)) = (cmd_order (last cs), 0)"
proof -
  from assms obtain pre where cs: "cs = pre @ [last cs]"
    by (metis append_butlast_last_id)
  let ?m = "foldl apply_command s pre"
  have f: "foldl apply_command s cs = apply_command ?m (last cs)"
    by (subst cs) simp
  have pm: "pattern_mode ?m = pattern_mode s" by (rule foldl_apply_command_common)
  show "cmd_type (last cs) = PLAYBACK_QUEUE_ORDER \<Longrightarrow> pattern_mode s \<noteq> 0 \<Longrightarrow>
           pending_pattern_mode_order (foldl apply_command s cs) = cmd_order (last cs)"
    by (simp add: f apply_queue_order pm)
  show "cmd_type (last cs) = PLAYBACK_QUEUE_ORDER \<Longrightarrow> pattern_mode s = 0 \<Longrightarrow>
           queued_order (foldl apply_command s cs) = cmd_order (last cs)
           \<and> queued_row (foldl apply_command s cs) = cmd_row (last cs)
           \<and> has_queued_jump (foldl apply_command s cs) = 1"
    by (simp add: f apply_queue_order pm)
  show "cmd_type (last cs) = PLAYBACK_LOOP_TILL_ROW \<Longrightarrow>
           loop_order (foldl apply_command s cs) = cmd_order (last cs)
           \<and> loop_till_row (foldl apply_command s cs) = cmd_row (last cs)
           \<and> is_looping_till (foldl apply_command s cs) = 1
           \<and> position (modext (foldl apply_command s cs)) = (cmd_order (last cs), 0)"
    by (simp add: f apply_loop_till_row)
qed

lemma enqueue_all_common:
  "modext (enqueue_all ad cs) = modext ad"
  "interactive_ok (enqueue_all ad cs) = interactive_ok ad"
  "num_channels (enqueue_all ad cs) = num_channels ad"
  "mute_states (enqueue_all ad cs) = mute_states ad"
  "pattern_mode (enqueue_all ad cs) = pattern_mode ad"
  unfolding enqueue_all_def
  by (induction cs arbitrary: ad) (simp_all add: enqueue_command_fields)

lemma three_commands_facts:
  "length three_commands \<le> 7" "three_commands \<noteq> []" "rev three_commands \<noteq> []"
  "length (rev three_commands) \<le> 7"
  "last three_commands = queue_order 3 0" "last (rev three_commands) = queue_order 1 0"
  "concat (map (\<lambda>c. if cmd_type c = PLAYBACK_LOOP_TILL_ROW
                     then jump_calls example_control (cmd_order c) 0 else []) three_commands)
     = jump_calls example_control 2 0"
  "concat (map (\<lambda>c. if cmd_type c = PLAYBACK_LOOP_TILL_ROW
                     then jump_calls example_control (cmd_order c) 0 else []) (rev three_commands))
     = jump_calls example_control 2 0"
  by (simp_all add: three_commands_def queue_order_def loop_till_def)

lemma example_control_song:
  "pattern_mode example_control = 0" "calls (modext example_control) = []"
  by (simp_all add: example_control_def initial_control_def example_module_def)

lemma eight_commands_facts:
  "length eight_commands = 8" "take 7 eight_commands \<noteq> []" "eight_commands \<noteq> []"
  "last (take 7 eight_commands) = queue_order 7 0" "last eight_commands = queue_order 8 0"
  by (simp_all add: eight_commands_def take_map last_map)

section \<open>The command queue\<close>

text \<open>
  Claim C1, as the code has it. The array has eight slots and the ring keeps one of them
  free, so the queue is full at seven pending commands. On a well-formed queue, an
  \<open>enqueue_command\<close> at occupancy seven returns the state it was given, unchanged in every
  field; below seven it appends the command to the pending ones. Starting from an empty
  queue, any run of enqueues leaves the first seven commands pending, in the order given,
  and drops the rest.
\<close>

theorem enqueue_full_is_noop:
  assumes "queue_ok ad"
  shows "(occupancy ad = 7 \<longrightarrow> enqueue_command ad ty ord rw = ad)
    \<and> (occupancy ad < 7 \<longrightarrow>
         pending_commands (enqueue_command ad ty ord rw) =
           pending_commands ad @ [\<lparr>cmd_type = ty, cmd_order = ord, cmd_row = rw\<rparr>]
         \<and> occupancy (enqueue_command ad ty ord rw) = occupancy ad + 1)
    \<and> (command_queue_head ad = command_queue_tail ad \<longrightarrow>
         pending_commands (enqueue_all ad cs) = take 7 cs
         \<and> occupancy (enqueue_all ad cs) = min 7 (length cs))"
proof (intro conjI impI)
  assume "occupancy ad = 7"
  with assms show "enqueue_command ad ty ord rw = ad" by (rule enqueue_full_unchanged)
next
  assume "occupancy ad < 7"
  then have r: "occupancy ad \<noteq> 7" by simp
  show "pending_commands (enqueue_command ad ty ord rw) =
      pending_commands ad @ [\<lparr>cmd_type = ty, cmd_order = ord, cmd_row = rw\<rparr>]"
    by (rule enqueue_room(3) [OF assms r])
  show "occupancy (enqueue_command ad ty ord rw) = occupancy ad + 1"
    using enqueue_room(2) [OF assms r] by simp
next
  assume e: "command_queue_head ad = command_queue_tail ad"
  then have z: "occupancy ad = 0" by (rule occupancy_empty)
  then have "pending_commands ad = []" by (simp add: pending_commands_def)
  with enqueue_all_pending [OF assms, of cs] z
  show p: "pending_commands (enqueue_all ad cs) = take 7 cs" by simp
  have "length (pending_commands (enqueue_all ad cs)) = occupancy (enqueue_all ad cs)"
    by (simp add: pending_commands_def)
  then show "occupancy (enqueue_all ad cs) = min 7 (length cs)" by (simp add: p min.commute)
qed

text \<open>
  The two instances of C1's theorem on the example player: a queue holding seven commands
  refuses an eighth, and the empty queue takes a command and keeps seven of nine.
\<close>

theorem enqueue_full_is_noop_witness:
  "queue_ok (enqueue_all example_control (take 7 nine_commands))
   \<and> occupancy (enqueue_all example_control (take 7 nine_commands)) = 7
   \<and> enqueue_command (enqueue_all example_control (take 7 nine_commands)) PLAYBACK_QUEUE_ORDER 8 0
       = enqueue_all example_control (take 7 nine_commands)
   \<and> queue_ok example_control
   \<and> occupancy example_control < 7
   \<and> pending_commands (enqueue_command example_control PLAYBACK_QUEUE_ORDER 1 0) = [queue_order 1 0]
   \<and> command_queue_head example_control = command_queue_tail example_control
   \<and> pending_commands (enqueue_all example_control nine_commands) = take 7 nine_commands"
proof -
  let ?full = "enqueue_all example_control (take 7 nine_commands)"
  note e = example_control_empty
  have okf: "queue_ok ?full" using enqueue_all_pending [OF e(1)] by blast
  have "occupancy ?full = min 7 (length (take 7 nine_commands))"
    using enqueue_full_is_noop [OF e(1), of _ _ _ "take 7 nine_commands"] e(2) by blast
  then have of: "occupancy ?full = 7" by (simp add: nine_commands_length)
  have pe: "pending_commands example_control = []" by (simp add: pending_commands_def e(3))
  show ?thesis
    using enqueue_full_is_noop [OF okf, of PLAYBACK_QUEUE_ORDER 8 0] of
      enqueue_full_is_noop [OF e(1), of PLAYBACK_QUEUE_ORDER 1 0 nine_commands] e okf pe
    by (simp add: queue_order_def)
qed

text \<open>
  C1 as stated fails: after nine enqueues on the empty queue of the example player the
  pending commands are the first seven, not the first eight, and the eighth enqueue is
  already refused.
\<close>

theorem ninth_enqueue_counterexample:
  "length nine_commands = 9
   \<and> pending_commands (enqueue_all example_control nine_commands) = take 7 nine_commands
   \<and> pending_commands (enqueue_all example_control nine_commands) \<noteq> take 8 nine_commands
   \<and> occupancy (enqueue_all example_control (take 7 nine_commands)) = 7
   \<and> enqueue_command (enqueue_all example_control (take 7 nine_commands)) PLAYBACK_QUEUE_ORDER 8 0
       = enqueue_all example_control (take 7 nine_commands)"
proof -
  let ?s = example_control
  have ok: "queue_ok ?s" by (simp add: example_control_def initial_control_queue_ok)
  have z: "occupancy ?s = 0" by (simp add: example_control_def initial_control_def occupancy_def)
  then have e: "pending_commands ?s = []" by (simp add: pending_commands_def)
  have p: "pending_commands (enqueue_all ?s cs) = take 7 cs" for cs
    using enqueue_all_pending [OF ok, of cs] z e by simp
  have l: "length (pending_commands ad) = occupancy ad" for ad :: Control
    by (simp add: pending_commands_def)
  have "length (take 7 nine_commands) \<noteq> length (take 8 nine_commands)"
    by (simp add: nine_commands_length)
  then have ne: "take 7 nine_commands \<noteq> take 8 nine_commands" by metis
  have o: "occupancy (enqueue_all ?s (take 7 nine_commands)) = 7"
    using l [of "enqueue_all ?s (take 7 nine_commands)"]
    by (simp add: p nine_commands_length)
  have ok7: "queue_ok (enqueue_all ?s (take 7 nine_commands))"
    using enqueue_all_pending [OF ok] by blast
  show ?thesis
    using ne enqueue_full_unchanged [OF ok7 o] by (simp add: p o nine_commands_length)
qed

text \<open>
  Claim C2, as the code has it. Take a well-formed, drained queue and enqueue any commands
  \<open>cs\<close> that fit the ring: at most seven, one less than \<open>MAX_COMMANDS\<close>. Then
  \<open>process_commands\<close> returns: its loop ends. The state it returns is the one reached by
  applying the commands one after the other in the order they were enqueued, each to the
  state the one before left, and its queue is empty, \<open>head\<close> equal to \<open>tail\<close>. The order
  shows in the engine and in the transport fields: the calls the drain adds are the jumps
  of the loop-till-row commands of \<open>cs\<close>, each with its mutes reapplied, in the order of
  \<open>cs\<close>; and the fields a command writes hold, after the drain, what the last command of
  \<open>cs\<close> wrote.
\<close>

theorem drain_applies_in_order:
  assumes "queue_ok ad" and "command_queue_head ad = command_queue_tail ad"
    and "length cs \<le> 7"
  shows "\<exists>ad'. process_commands (enqueue_all ad cs) = Some ad'
     \<and> ad' = (foldl apply_command (enqueue_all ad cs) cs)
               \<lparr>command_queue_head := command_queue_tail (enqueue_all ad cs)\<rparr>
     \<and> command_queue_head ad' = command_queue_tail ad'
     \<and> calls (modext ad') =
         calls (modext ad) @
           concat (map (\<lambda>c. if cmd_type c = PLAYBACK_LOOP_TILL_ROW
                             then jump_calls ad (cmd_order c) 0 else []) cs)
     \<and> (cs \<noteq> [] \<and> cmd_type (last cs) = PLAYBACK_QUEUE_ORDER \<and> pattern_mode ad \<noteq> 0 \<longrightarrow>
          pending_pattern_mode_order ad' = cmd_order (last cs))
     \<and> (cs \<noteq> [] \<and> cmd_type (last cs) = PLAYBACK_QUEUE_ORDER \<and> pattern_mode ad = 0 \<longrightarrow>
          queued_order ad' = cmd_order (last cs) \<and> queued_row ad' = cmd_row (last cs)
          \<and> has_queued_jump ad' = 1)
     \<and> (cs \<noteq> [] \<and> cmd_type (last cs) = PLAYBACK_LOOP_TILL_ROW \<longrightarrow>
          loop_order ad' = cmd_order (last cs) \<and> loop_till_row ad' = cmd_row (last cs)
          \<and> is_looping_till ad' = 1 \<and> position (modext ad') = (cmd_order (last cs), 0))"
proof -
  let ?e = "enqueue_all ad cs"
  let ?f = "foldl apply_command ?e cs"
  let ?r = "?f\<lparr>command_queue_head := command_queue_tail ?e\<rparr>"
  have z: "occupancy ad = 0" using assms(2) by (rule occupancy_empty)
  then have "pending_commands ad = []" by (simp add: pending_commands_def)
  with enqueue_all_pending [OF assms(1), of cs] z assms(3)
  have ok: "queue_ok ?e" and p: "pending_commands ?e = cs"
    by simp_all
  have d: "process_commands ?e = Some ?r"
    using process_commands_drain [OF ok] by (simp add: p)
  have h: "command_queue_head ?r = command_queue_tail ?r"
    by (simp add: foldl_apply_command_queue)
  have j: "jump_calls ?e ord rw = jump_calls ad ord rw" for ord rw
    by (rule jump_calls_cong) (simp_all add: enqueue_all_common)
  have c: "calls (modext ?r) =
         calls (modext ad) @
           concat (map (\<lambda>c. if cmd_type c = PLAYBACK_LOOP_TILL_ROW
                             then jump_calls ad (cmd_order c) 0 else []) cs)"
    by (simp add: foldl_apply_command_calls j enqueue_all_common cong: if_cong)
  have pm: "pattern_mode ?e = pattern_mode ad" by (rule enqueue_all_common)
  have l1: "cs \<noteq> [] \<and> cmd_type (last cs) = PLAYBACK_QUEUE_ORDER \<and> pattern_mode ad \<noteq> 0 \<longrightarrow>
          pending_pattern_mode_order ?r = cmd_order (last cs)"
    using foldl_apply_command_last(1) [of cs ?e] by (simp add: pm)
  have l2: "cs \<noteq> [] \<and> cmd_type (last cs) = PLAYBACK_QUEUE_ORDER \<and> pattern_mode ad = 0 \<longrightarrow>
          queued_order ?r = cmd_order (last cs) \<and> queued_row ?r = cmd_row (last cs)
          \<and> has_queued_jump ?r = 1"
    using foldl_apply_command_last(2) [of cs ?e] by (simp add: pm)
  have l3: "cs \<noteq> [] \<and> cmd_type (last cs) = PLAYBACK_LOOP_TILL_ROW \<longrightarrow>
          loop_order ?r = cmd_order (last cs) \<and> loop_till_row ?r = cmd_row (last cs)
          \<and> is_looping_till ?r = 1 \<and> position (modext ?r) = (cmd_order (last cs), 0)"
    using foldl_apply_command_last(3) [of cs ?e] by (simp add: position_def)
  from d h c l1 l2 l3 show ?thesis by blast
qed


text \<open>
  C2's theorem on the example player in song mode, for three commands and for the same
  three in reverse order: the jump of the loop-till-row command is issued, and the queued
  order left is that of the command enqueued last, 3 in one order and 1 in the other.
\<close>

theorem drain_applies_in_order_witness:
  "queue_ok example_control
   \<and> command_queue_head example_control = command_queue_tail example_control
   \<and> length three_commands \<le> 7 \<and> length (rev three_commands) \<le> 7
   \<and> (\<exists>ad'. process_commands (enqueue_all example_control three_commands) = Some ad'
        \<and> command_queue_head ad' = command_queue_tail ad'
        \<and> position_calls (calls (modext ad')) = [SetPosition 2 0]
        \<and> queued_order ad' = 3 \<and> queued_row ad' = 0 \<and> has_queued_jump ad' = 1)
   \<and> (\<exists>ad'. process_commands (enqueue_all example_control (rev three_commands)) = Some ad'
        \<and> command_queue_head ad' = command_queue_tail ad'
        \<and> position_calls (calls (modext ad')) = [SetPosition 2 0]
        \<and> queued_order ad' = 1 \<and> queued_row ad' = 0 \<and> has_queued_jump ad' = 1)"
proof -
  note e = example_control_empty(1,2)
  note f = three_commands_facts
  have q: "cmd_type (queue_order 3 0) = PLAYBACK_QUEUE_ORDER" "cmd_order (queue_order 3 0) = 3"
    "cmd_row (queue_order 3 0) = 0"
    "cmd_type (queue_order 1 0) = PLAYBACK_QUEUE_ORDER" "cmd_order (queue_order 1 0) = 1"
    "cmd_row (queue_order 1 0) = 0"
    by (simp_all add: queue_order_def)
  from drain_applies_in_order [OF e f(1)]
  obtain a where a: "process_commands (enqueue_all example_control three_commands) = Some a"
    "command_queue_head a = command_queue_tail a"
    "calls (modext a) = jump_calls example_control 2 0"
    "queued_order a = 3" "queued_row a = 0" "has_queued_jump a = 1"
    by (auto simp only: f example_control_song q append_Nil)
  from drain_applies_in_order [OF e f(4)]
  obtain b where b: "process_commands (enqueue_all example_control (rev three_commands)) = Some b"
    "command_queue_head b = command_queue_tail b"
    "calls (modext b) = jump_calls example_control 2 0"
    "queued_order b = 1" "queued_row b = 0" "has_queued_jump b = 1"
    by (auto simp only: f example_control_song q append_Nil)
  have "position_calls (calls (modext a)) = [SetPosition 2 0]"
    "position_calls (calls (modext b)) = [SetPosition 2 0]"
    by (simp_all add: a(3) b(3))
  with a b e f(1,4) show ?thesis by blast
qed


text \<open>
  C2 as stated, with the capacity of eight that the specification names, fails: of eight
  commands enqueued on the drained queue of the example player the drain applies seven.
  It leaves the queued order of the seventh command, where applying all eight in order
  leaves that of the eighth.
\<close>

theorem eighth_command_not_applied_counterexample:
  "queue_ok example_control
   \<and> command_queue_head example_control = command_queue_tail example_control
   \<and> length eight_commands = 8
   \<and> map_option queued_order (process_commands (enqueue_all example_control eight_commands)) = Some 7
   \<and> queued_order (foldl apply_command (enqueue_all example_control eight_commands) eight_commands) = 8
   \<and> process_commands (enqueue_all example_control eight_commands) \<noteq>
       Some ((foldl apply_command (enqueue_all example_control eight_commands) eight_commands)
              \<lparr>command_queue_head := command_queue_tail (enqueue_all example_control eight_commands)\<rparr>)"
proof -
  let ?e = "enqueue_all example_control eight_commands"
  note e = example_control_empty
  have pe: "pending_commands example_control = []" by (simp add: pending_commands_def e(3))
  from enqueue_all_pending [OF e(1), of eight_commands]
  have ok: "queue_ok ?e" and p: "pending_commands ?e = take 7 eight_commands"
    by (simp_all add: pe e(3))
  have d: "process_commands ?e =
      Some ((foldl apply_command ?e (take 7 eight_commands))
              \<lparr>command_queue_head := command_queue_tail ?e\<rparr>)"
    using process_commands_drain [OF ok] by (simp add: p)
  have pm: "pattern_mode ?e = 0" by (simp add: enqueue_all_common example_control_song)
  have q: "cmd_type (queue_order 7 0) = PLAYBACK_QUEUE_ORDER" "cmd_order (queue_order 7 0) = 7"
    "cmd_type (queue_order 8 0) = PLAYBACK_QUEUE_ORDER" "cmd_order (queue_order 8 0) = 8"
    by (simp_all add: queue_order_def)
  have s7: "queued_order (foldl apply_command ?e (take 7 eight_commands)) = 7"
    using foldl_apply_command_last(2) [OF eight_commands_facts(2), of ?e] pm
    by (simp add: eight_commands_facts q)
  have s8: "queued_order (foldl apply_command ?e eight_commands) = 8"
    using foldl_apply_command_last(2) [OF eight_commands_facts(3), of ?e] pm
    by (simp add: eight_commands_facts q)
  have ne: "(foldl apply_command ?e (take 7 eight_commands))
              \<lparr>command_queue_head := command_queue_tail ?e\<rparr> \<noteq>
      (foldl apply_command ?e eight_commands)\<lparr>command_queue_head := command_queue_tail ?e\<rparr>"
  proof
    assume "(foldl apply_command ?e (take 7 eight_commands))
              \<lparr>command_queue_head := command_queue_tail ?e\<rparr> =
      (foldl apply_command ?e eight_commands)\<lparr>command_queue_head := command_queue_tail ?e\<rparr>"
    then have "queued_order ((foldl apply_command ?e (take 7 eight_commands))
              \<lparr>command_queue_head := command_queue_tail ?e\<rparr>) =
      queued_order ((foldl apply_command ?e eight_commands)
              \<lparr>command_queue_head := command_queue_tail ?e\<rparr>)"
      by (rule arg_cong)
    then show False by (simp add: s7 s8)
  qed
  show ?thesis using e(1,2) ne by (simp add: d s7 s8 eight_commands_facts)
qed


section \<open>The transport state machine\<close>

text \<open>
  Claim C3. In pattern mode, applying a \<open>PLAYBACK_QUEUE_ORDER\<close> command changes the field
  \<open>pending_pattern_mode_order\<close> and nothing else: the engine is not called. The pending
  order is taken up by a tick of the pattern loop only when that tick sees the row wrap
  (the row seen before was the last row of the loop pattern, the row seen now is 0) and the
  pending order is set and differs from \<open>loop_order\<close>: then \<open>loop_order\<close> becomes the pending
  order, \<open>loop_pattern\<close> is read again from the order table, the engine is sent to row 0
  of the new order with the mutes reapplied, and the pending order is cleared. In every
  other tick of the pattern loop the three fields stay as they are and each jump issued
  goes to \<open>(loop_order, 0)\<close>: one at a wrap, one more if the observed order is not the loop
  order. While looping till a row the tick leaves the three fields alone.
\<close>

theorem pattern_mode_queue_order_waits_for_wrap:
  assumes "pattern_mode s \<noteq> 0"
  shows "(cmd_type c = PLAYBACK_QUEUE_ORDER \<longrightarrow>
            apply_command s c = s\<lparr>pending_pattern_mode_order := cmd_order c\<rparr>)
    \<and> (is_looping_till s = 0 \<and> wrap_seen s \<and> pending_pattern_mode_order s \<noteq> - 1
          \<and> pending_pattern_mode_order s \<noteq> loop_order s \<longrightarrow>
            loop_order (tick s) = pending_pattern_mode_order s
            \<and> loop_pattern (tick s) = order_pattern (modext s) (pending_pattern_mode_order s)
            \<and> pending_pattern_mode_order (tick s) = - 1
            \<and> calls (modext (tick s)) =
                calls (modext s) @ jump_calls s (pending_pattern_mode_order s) 0
                  @ (if current_order (modext s) \<noteq> pending_pattern_mode_order s
                     then jump_calls s (pending_pattern_mode_order s) 0 else [])
            \<and> position (modext (tick s)) = (pending_pattern_mode_order s, 0))
    \<and> (is_looping_till s = 0 \<and> \<not> (wrap_seen s \<and> pending_pattern_mode_order s \<noteq> - 1
          \<and> pending_pattern_mode_order s \<noteq> loop_order s) \<longrightarrow>
            loop_order (tick s) = loop_order s
            \<and> loop_pattern (tick s) = loop_pattern s
            \<and> pending_pattern_mode_order (tick s) = pending_pattern_mode_order s
            \<and> calls (modext (tick s)) =
                calls (modext s) @ (if wrap_seen s then jump_calls s (loop_order s) 0 else [])
                  @ (if current_order (modext s) \<noteq> loop_order s
                     then jump_calls s (loop_order s) 0 else []))
    \<and> (is_looping_till s \<noteq> 0 \<longrightarrow>
            loop_order (tick s) = loop_order s
            \<and> loop_pattern (tick s) = loop_pattern s
            \<and> pending_pattern_mode_order (tick s) = pending_pattern_mode_order s)"
proof (intro conjI impI)
  assume "cmd_type c = PLAYBACK_QUEUE_ORDER"
  then show "apply_command s c = s\<lparr>pending_pattern_mode_order := cmd_order c\<rparr>"
    using assms by (simp add: apply_queue_order)
next
  assume h: "is_looping_till s = 0 \<and> wrap_seen s \<and> pending_pattern_mode_order s \<noteq> - 1
          \<and> pending_pattern_mode_order s \<noteq> loop_order s"
  then have t: "tick s = pattern_loop_tick s" using assms by (simp add: tick_pattern_loop)
  from h have w: "wrap_seen s" "pending_pattern_mode_order s \<noteq> - 1"
    "pending_pattern_mode_order s \<noteq> loop_order s" by simp_all
  note sw = pattern_loop_tick_switch [OF w]
  show "loop_order (tick s) = pending_pattern_mode_order s" by (simp only: t sw(1))
  show "loop_pattern (tick s) = order_pattern (modext s) (pending_pattern_mode_order s)"
    by (simp only: t sw(2))
  show "pending_pattern_mode_order (tick s) = - 1" by (simp only: t sw(3))
  show "calls (modext (tick s)) =
      calls (modext s) @ jump_calls s (pending_pattern_mode_order s) 0
        @ (if current_order (modext s) \<noteq> pending_pattern_mode_order s
           then jump_calls s (pending_pattern_mode_order s) 0 else [])"
    by (simp only: t sw(4))
  show "position (modext (tick s)) = (pending_pattern_mode_order s, 0)" by (simp only: t sw(5))
next
  assume h: "is_looping_till s = 0 \<and> \<not> (wrap_seen s \<and> pending_pattern_mode_order s \<noteq> - 1
          \<and> pending_pattern_mode_order s \<noteq> loop_order s)"
  then have t: "tick s = pattern_loop_tick s" using assms by (simp add: tick_pattern_loop)
  from h have w: "\<not> (wrap_seen s \<and> pending_pattern_mode_order s \<noteq> - 1
          \<and> pending_pattern_mode_order s \<noteq> loop_order s)" by simp
  note st = pattern_loop_tick_stay [OF w]
  show "loop_order (tick s) = loop_order s" by (simp only: t st(1))
  show "loop_pattern (tick s) = loop_pattern s" by (simp only: t st(2))
  show "pending_pattern_mode_order (tick s) = pending_pattern_mode_order s" by (simp only: t st(3))
  show "calls (modext (tick s)) =
      calls (modext s) @ (if wrap_seen s then jump_calls s (loop_order s) 0 else [])
        @ (if current_order (modext s) \<noteq> loop_order s
           then jump_calls s (loop_order s) 0 else [])"
    by (simp only: t st(4))
next
  assume h: "is_looping_till s \<noteq> 0"
  then have t: "tick s = loop_till_row_tick s" by (rule tick_loop_till_row)
  show "loop_order (tick s) = loop_order s" "loop_pattern (tick s) = loop_pattern s"
    "pending_pattern_mode_order (tick s) = pending_pattern_mode_order s"
    by (simp_all only: t loop_till_row_tick_fields)
qed


text \<open>
  C3's theorem on the example player with order 1 pending on the loop at order 0: in the
  middle of the pattern the tick changes nothing and calls nothing; at the wrap it switches
  the loop to order 1; while looping till a row the pending order is kept.
\<close>

theorem pattern_mode_queue_order_waits_for_wrap_witness:
  "pattern_mode mid_pattern \<noteq> 0 \<and> is_looping_till mid_pattern = 0 \<and> \<not> wrap_seen mid_pattern
   \<and> cmd_type (queue_order 1 0) = PLAYBACK_QUEUE_ORDER
   \<and> apply_command mid_pattern (queue_order 1 0) = mid_pattern\<lparr>pending_pattern_mode_order := 1\<rparr>
   \<and> loop_order (tick mid_pattern) = 0
   \<and> pending_pattern_mode_order (tick mid_pattern) = 1
   \<and> calls (modext (tick mid_pattern)) = []
   \<and> pattern_mode at_wrap \<noteq> 0 \<and> is_looping_till at_wrap = 0 \<and> wrap_seen at_wrap
   \<and> pending_pattern_mode_order at_wrap \<noteq> - 1
   \<and> pending_pattern_mode_order at_wrap \<noteq> loop_order at_wrap
   \<and> loop_order (tick at_wrap) = 1
   \<and> loop_pattern (tick at_wrap) = 1
   \<and> pending_pattern_mode_order (tick at_wrap) = - 1
   \<and> position_calls (calls (modext (tick at_wrap))) = [SetPosition 1 0]
   \<and> position (modext (tick at_wrap)) = (1, 0)
   \<and> pattern_mode looping_till \<noteq> 0 \<and> is_looping_till looping_till \<noteq> 0
   \<and> pending_pattern_mode_order (tick looping_till) = - 1
   \<and> loop_order (tick looping_till) = 2"
proof -
  have m: "pattern_mode mid_pattern \<noteq> 0" and a: "pattern_mode at_wrap \<noteq> 0"
    and l: "pattern_mode looping_till \<noteq> 0"
    by (simp_all add: mid_pattern_fields at_wrap_fields looping_till_fields)
  have q: "cmd_type (queue_order 1 0) = PLAYBACK_QUEUE_ORDER" "cmd_order (queue_order 1 0) = 1"
    by (simp_all add: queue_order_def)
  show ?thesis
    using pattern_mode_queue_order_waits_for_wrap [OF m, of "queue_order 1 0"]
      pattern_mode_queue_order_waits_for_wrap [OF a, of "queue_order 1 0"]
      pattern_mode_queue_order_waits_for_wrap [OF l, of "queue_order 1 0"]
    by (simp add: mid_pattern_fields at_wrap_fields looping_till_fields q)
qed


text \<open>
  Claim C4, as the code has it. The control loop handles the wrap before it looks for drift,
  so the loop order that the observed order is compared with is the one in force after the
  wrap handling of the same tick: the pending order if that tick takes it up, the old loop
  order otherwise. When the observed order differs from it, the tick ends with a jump to
  row 0 of that loop order, whatever the row observed, with the mutes reapplied and
  \<open>prev_row\<close> reset to \<open>- 1\<close>; when it does not differ, \<open>prev_row\<close> is the row observed.
  Either way the tick leaves the engine in the loop order. In modplayer\_full.c the tick
  does not jump: on drift it raises \<open>do_pattern_loop\<close> and resets its \<open>prev_row\<close>, and the
  jump to row 0 of the loop order is made by the audio callback that runs next.
\<close>

theorem pattern_loop_drift_snaps_back:
  assumes "pattern_mode s \<noteq> 0" and "is_looping_till s = 0"
  shows "loop_order (tick s) =
           (if wrap_seen s \<and> pending_pattern_mode_order s \<noteq> - 1
               \<and> pending_pattern_mode_order s \<noteq> loop_order s
            then pending_pattern_mode_order s else loop_order s)
    \<and> (current_order (modext s) \<noteq> loop_order (tick s) \<longrightarrow>
          calls (modext (tick s)) =
            calls (modext s)
              @ (if wrap_seen s then jump_calls s (loop_order (tick s)) 0 else [])
              @ jump_calls s (loop_order (tick s)) 0
          \<and> position (modext (tick s)) = (loop_order (tick s), 0)
          \<and> prev_row (tick s) = - 1)
    \<and> (current_order (modext s) = loop_order (tick s) \<longrightarrow>
          prev_row (tick s) = current_row (modext s))
    \<and> current_order (modext (tick s)) = loop_order (tick s)
    \<and> (pattern_mode f \<noteq> 0 \<and> current_order (modext f) \<noteq> loop_order f \<longrightarrow>
          full_tick f = f\<lparr>do_pattern_loop := 1, full_prev_row := - 1\<rparr>
          \<and> position (modext (full_consume_loop (full_tick f))) = (loop_order f, 0)
          \<and> calls (modext (full_consume_loop (full_tick f))) =
              calls (modext f) @ jump_calls f (loop_order f) 0)"
proof -
  have t: "tick s = pattern_loop_tick s" using assms by (rule tick_pattern_loop)
  have full: "pattern_mode f \<noteq> 0 \<and> current_order (modext f) \<noteq> loop_order f \<longrightarrow>
          full_tick f = f\<lparr>do_pattern_loop := 1, full_prev_row := - 1\<rparr>
          \<and> position (modext (full_consume_loop (full_tick f))) = (loop_order f, 0)
          \<and> calls (modext (full_consume_loop (full_tick f))) =
              calls (modext f) @ jump_calls f (loop_order f) 0"
    using full_tick_drift [of f] by blast
  have "loop_order (tick s) =
           (if wrap_seen s \<and> pending_pattern_mode_order s \<noteq> - 1
               \<and> pending_pattern_mode_order s \<noteq> loop_order s
            then pending_pattern_mode_order s else loop_order s)
    \<and> (current_order (modext s) \<noteq> loop_order (tick s) \<longrightarrow>
          calls (modext (tick s)) =
            calls (modext s)
              @ (if wrap_seen s then jump_calls s (loop_order (tick s)) 0 else [])
              @ jump_calls s (loop_order (tick s)) 0
          \<and> position (modext (tick s)) = (loop_order (tick s), 0)
          \<and> prev_row (tick s) = - 1)
    \<and> (current_order (modext s) = loop_order (tick s) \<longrightarrow>
          prev_row (tick s) = current_row (modext s))
    \<and> current_order (modext (tick s)) = loop_order (tick s)"
  proof (cases "wrap_seen s \<and> pending_pattern_mode_order s \<noteq> - 1
      \<and> pending_pattern_mode_order s \<noteq> loop_order s")
    case True
    then have w: "wrap_seen s" "pending_pattern_mode_order s \<noteq> - 1"
      "pending_pattern_mode_order s \<noteq> loop_order s" by simp_all
    note sw = pattern_loop_tick_switch [OF w]
    have r0: "current_row (modext s) = 0" using w(1) by (simp add: wrap_seen_def)
    have "current_order (modext (pattern_loop_tick s)) = pending_pattern_mode_order s"
      using sw(5) by (simp add: position_def)
    then show ?thesis using True sw r0 by (simp add: t)
  next
    case False
    note st = pattern_loop_tick_stay [OF False]
    have "current_order (modext (pattern_loop_tick s)) = loop_order s"
    proof (cases "wrap_seen s \<or> current_order (modext s) \<noteq> loop_order s")
      case True
      from st(5) [OF this] show ?thesis by (simp add: position_def)
    next
      case False
      then show ?thesis using st(6) by simp
    qed
    then show ?thesis using False st(1,4,7) st(5) by (auto simp add: t)
  qed
  with full show ?thesis by blast
qed


text \<open>
  C4's theorem on the example players, drifted to order 1, row 2, while looping order 0.
\<close>

theorem pattern_loop_drift_snaps_back_witness:
  "pattern_mode drifted \<noteq> 0 \<and> is_looping_till drifted = 0
   \<and> loop_order (tick drifted) = 0
   \<and> current_order (modext drifted) \<noteq> loop_order (tick drifted)
   \<and> current_row (modext drifted) = 2
   \<and> position_calls (calls (modext (tick drifted))) = [SetPosition 0 0]
   \<and> position (modext (tick drifted)) = (0, 0)
   \<and> prev_row (tick drifted) = - 1
   \<and> pattern_mode full_drifted \<noteq> 0
   \<and> current_order (modext full_drifted) \<noteq> loop_order full_drifted
   \<and> modext (full_tick full_drifted) = modext full_drifted
   \<and> do_pattern_loop (full_tick full_drifted) = 1
   \<and> full_prev_row (full_tick full_drifted) = - 1
   \<and> position (modext (full_consume_loop (full_tick full_drifted))) = (0, 0)"
proof -
  have a: "pattern_mode drifted \<noteq> 0" "is_looping_till drifted = 0"
    by (simp_all add: drifted_fields)
  note w = pattern_loop_drift_snaps_back [OF a, of full_drifted]
  have d: "pattern_mode full_drifted \<noteq> 0
      \<and> current_order (modext full_drifted) \<noteq> loop_order full_drifted"
    by (simp add: full_drifted_fields)
  from w d have f: "full_tick full_drifted = full_drifted\<lparr>do_pattern_loop := 1, full_prev_row := - 1\<rparr>"
    and p: "position (modext (full_consume_loop (full_tick full_drifted))) = (loop_order full_drifted, 0)"
    by blast+
  have m: "modext (full_tick full_drifted) = modext full_drifted"
    "do_pattern_loop (full_tick full_drifted) = 1" "full_prev_row (full_tick full_drifted) = - 1"
    by (simp_all add: f)
  from w have l: "loop_order (tick drifted) = 0" by (simp add: drifted_fields)
  from w l have r: "calls (modext (tick drifted)) = calls (modext drifted) @ jump_calls drifted 0 0"
    "position (modext (tick drifted)) = (0, 0)" "prev_row (tick drifted) = - 1"
    by (simp_all add: drifted_fields)
  show ?thesis using a d l r m p by (simp add: drifted_fields full_drifted_fields)
qed


text \<open>
  C4 as stated fails at the wrap that takes up a pending order. The example player loops
  order 0 with order 1 pending, has seen the last row, and now observes order 1, row 0: an
  order other than its loop order. The tick jumps to order 1, not back to order 0, and
  \<open>prev_row\<close> is the row observed, not the sentinel.
\<close>

theorem drift_snap_counterexample:
  "pattern_mode at_wrap \<noteq> 0 \<and> is_looping_till at_wrap = 0
   \<and> current_order (modext at_wrap) \<noteq> loop_order at_wrap
   \<and> position_calls (calls (modext (tick at_wrap))) = [SetPosition 1 0]
   \<and> SetPosition (loop_order at_wrap) 0 \<notin> set (calls (modext (tick at_wrap)))
   \<and> prev_row (tick at_wrap) \<noteq> - 1"
proof -
  have w: "wrap_seen at_wrap" "pending_pattern_mode_order at_wrap \<noteq> - 1"
    "pending_pattern_mode_order at_wrap \<noteq> loop_order at_wrap"
    by (simp_all add: at_wrap_fields)
  note sw = pattern_loop_tick_switch [OF w]
  have t: "tick at_wrap = pattern_loop_tick at_wrap"
    by (rule tick_pattern_loop) (simp_all add: at_wrap_fields)
  have p: "position_calls (calls (modext (tick at_wrap))) = [SetPosition 1 0]"
    by (simp add: t sw(4) at_wrap_fields)
  have "SetPosition 0 0 \<notin> set (position_calls (calls (modext (tick at_wrap))))"
    by (simp add: p)
  then have "SetPosition 0 0 \<notin> set (calls (modext (tick at_wrap)))"
    by (simp add: position_calls_def)
  then show ?thesis using p sw(6) by (simp add: t at_wrap_fields)
qed


text \<open>
  Claim C5, as the code has it. Applying a \<open>PLAYBACK_LOOP_TILL_ROW\<close> command sets the loop
  order, pattern and stop row, raises \<open>is_looping_till\<close>, keeps \<open>pattern_mode\<close>, and sends
  the engine to row 0 of the order with the mutes reapplied. A tick in that state leaves
  it exactly when the observed order is the loop order and the observed row is the stop
  row, and then calls nothing and keeps \<open>pattern_mode\<close>. In the loop order and off the stop
  row, a wrap sends the engine back to row 0 of the loop order with the mutes reapplied,
  and without a wrap the engine is left alone. Outside the loop order the tick does not
  bring the engine back: it calls nothing, resets \<open>prev_row\<close> and stays in the state.
\<close>

theorem loop_till_row_engage_loop_exit:
  "(cmd_type c = PLAYBACK_LOOP_TILL_ROW \<longrightarrow>
      is_looping_till (apply_command s c) = 1
      \<and> loop_order (apply_command s c) = cmd_order c
      \<and> loop_pattern (apply_command s c) = order_pattern (modext s) (cmd_order c)
      \<and> loop_till_row (apply_command s c) = cmd_row c
      \<and> pattern_mode (apply_command s c) = pattern_mode s
      \<and> position (modext (apply_command s c)) = (cmd_order c, 0)
      \<and> calls (modext (apply_command s c)) = calls (modext s) @ jump_calls s (cmd_order c) 0)
   \<and> (is_looping_till s \<noteq> 0 \<longrightarrow>
        (is_looping_till (tick s) = 0 \<longleftrightarrow>
           current_order (modext s) = loop_order s \<and> current_row (modext s) = loop_till_row s)
        \<and> (is_looping_till (tick s) = 0 \<longrightarrow>
             modext (tick s) = modext s \<and> pattern_mode (tick s) = pattern_mode s)
        \<and> (current_order (modext s) = loop_order s \<and> current_row (modext s) \<noteq> loop_till_row s
             \<and> wrap_seen s \<longrightarrow>
             calls (modext (tick s)) = calls (modext s) @ jump_calls s (loop_order s) 0
             \<and> position (modext (tick s)) = (loop_order s, 0))
        \<and> (current_order (modext s) = loop_order s \<and> \<not> wrap_seen s \<longrightarrow>
             modext (tick s) = modext s)
        \<and> (current_order (modext s) \<noteq> loop_order s \<longrightarrow>
             modext (tick s) = modext s \<and> prev_row (tick s) = - 1
             \<and> is_looping_till (tick s) = is_looping_till s)
        \<and> loop_order (tick s) = loop_order s
        \<and> loop_till_row (tick s) = loop_till_row s)"
proof (intro conjI impI)
  assume c: "cmd_type c = PLAYBACK_LOOP_TILL_ROW"
  note a = apply_loop_till_row [OF c, of s]
  show "is_looping_till (apply_command s c) = 1" by (rule a(1))
  show "loop_order (apply_command s c) = cmd_order c" by (rule a(2))
  show "loop_pattern (apply_command s c) = order_pattern (modext s) (cmd_order c)" by (rule a(3))
  show "loop_till_row (apply_command s c) = cmd_row c" by (rule a(4))
  show "pattern_mode (apply_command s c) = pattern_mode s" by (rule a(5))
  show "position (modext (apply_command s c)) = (cmd_order c, 0)" by (rule a(7))
  show "calls (modext (apply_command s c)) = calls (modext s) @ jump_calls s (cmd_order c) 0"
    by (rule a(8))
next
  assume l: "is_looping_till s \<noteq> 0"
  then have t: "tick s = loop_till_row_tick s" by (rule tick_loop_till_row)
  show "is_looping_till (tick s) = 0 \<longleftrightarrow>
      current_order (modext s) = loop_order s \<and> current_row (modext s) = loop_till_row s"
    using loop_till_row_tick_cases(1) [OF l] by (simp only: t)
  show "loop_order (tick s) = loop_order s" "loop_till_row (tick s) = loop_till_row s"
    by (simp_all only: t loop_till_row_tick_fields)
  {
    assume "is_looping_till (tick s) = 0"
    then have "current_order (modext s) = loop_order s \<and> current_row (modext s) = loop_till_row s"
      using loop_till_row_tick_cases(1) [OF l] by (simp only: t)
    then show "modext (tick s) = modext s" by (simp add: t loop_till_row_tick_cases(2))
    show "pattern_mode (tick s) = pattern_mode s" by (simp only: t loop_till_row_tick_fields)
  }
  {
    assume h: "current_order (modext s) = loop_order s \<and> current_row (modext s) \<noteq> loop_till_row s
             \<and> wrap_seen s"
    then have x: "calls (modext (loop_till_row_tick s)) = calls (modext s) @ jump_calls s (loop_order s) 0
           \<and> position (modext (loop_till_row_tick s)) = (loop_order s, 0)"
      by (intro loop_till_row_tick_cases(3)) simp_all
    show "calls (modext (tick s)) = calls (modext s) @ jump_calls s (loop_order s) 0"
      using x by (simp only: t)
    show "position (modext (tick s)) = (loop_order s, 0)" using x by (simp only: t)
  }
  {
    assume "current_order (modext s) = loop_order s \<and> \<not> wrap_seen s"
    then show "modext (tick s) = modext s" by (simp add: t loop_till_row_tick_cases(5))
  }
  {
    assume h: "current_order (modext s) \<noteq> loop_order s"
    note x = loop_till_row_tick_cases(4) [OF h]
    show "modext (tick s) = modext s" using x by (simp only: t)
    show "prev_row (tick s) = - 1" using x by (simp only: t)
    show "is_looping_till (tick s) = is_looping_till s" using x by (simp only: t)
  }
qed


text \<open>
  C5's theorem on the example player, looping order 2 till row 5: engaging, leaving at
  the stop row, the wrap inside the loop order, and a tick outside the loop order.
\<close>

theorem loop_till_row_engage_loop_exit_witness:
  "cmd_type (loop_till 2 5) = PLAYBACK_LOOP_TILL_ROW
   \<and> is_looping_till (apply_command example_control (loop_till 2 5)) = 1
   \<and> position (modext (apply_command example_control (loop_till 2 5))) = (2, 0)
   \<and> position_calls (calls (modext (apply_command example_control (loop_till 2 5)))) = [SetPosition 2 0]
   \<and> is_looping_till at_stop_row \<noteq> 0
   \<and> current_order (modext at_stop_row) = loop_order at_stop_row
   \<and> current_row (modext at_stop_row) = loop_till_row at_stop_row
   \<and> is_looping_till (tick at_stop_row) = 0
   \<and> modext (tick at_stop_row) = modext at_stop_row
   \<and> pattern_mode (tick at_stop_row) = 1
   \<and> is_looping_till wrapped_in_loop \<noteq> 0
   \<and> current_order (modext wrapped_in_loop) = loop_order wrapped_in_loop
   \<and> current_row (modext wrapped_in_loop) \<noteq> loop_till_row wrapped_in_loop
   \<and> wrap_seen wrapped_in_loop
   \<and> position (modext (tick wrapped_in_loop)) = (2, 0)
   \<and> position_calls (calls (modext (tick wrapped_in_loop))) =
        position_calls (calls (modext wrapped_in_loop)) @ [SetPosition 2 0]
   \<and> is_looping_till escaped \<noteq> 0
   \<and> current_order (modext escaped) \<noteq> loop_order escaped
   \<and> modext (tick escaped) = modext escaped
   \<and> is_looping_till (tick escaped) = 1"
proof -
  have c: "cmd_type (loop_till 2 5) = PLAYBACK_LOOP_TILL_ROW" "cmd_order (loop_till 2 5) = 2"
    by (simp_all add: loop_till_def)
  have e: "calls (modext example_control) = []"
    by (simp add: example_control_def initial_control_def example_module_def)
  show ?thesis
    using loop_till_row_engage_loop_exit [of "loop_till 2 5" example_control]
      loop_till_row_engage_loop_exit [of "loop_till 2 5" at_stop_row]
      loop_till_row_engage_loop_exit [of "loop_till 2 5" wrapped_in_loop]
      loop_till_row_engage_loop_exit [of "loop_till 2 5" escaped]
    by (simp add: c e at_stop_row_fields wrapped_in_loop_fields escaped_fields)
qed


text \<open>
  C5 as stated fails: playback is not confined to the loop order. The example player, in
  song mode, is set looping order 2 till row 5 and then takes a queued jump to order 3,
  which the audio callback carries out. From there tick after tick calls nothing, the
  engine stays in order 3 and the looping state is not left.
\<close>

theorem loop_till_row_not_confined_counterexample:
  "is_looping_till escaped \<noteq> 0
   \<and> loop_order escaped = 2
   \<and> current_order (modext escaped) = 3
   \<and> calls (modext (tick escaped)) = calls (modext escaped)
   \<and> current_order (modext (tick escaped)) = 3
   \<and> is_looping_till (tick escaped) \<noteq> 0
   \<and> current_order (modext (tick (tick escaped))) = 3
   \<and> calls (modext (tick (tick escaped))) = calls (modext escaped)"
proof -
  have d: "current_order (modext escaped) \<noteq> loop_order escaped" by (simp add: escaped_fields)
  have t: "tick escaped = loop_till_row_tick escaped"
    by (rule tick_loop_till_row) (simp add: escaped_fields)
  note x = loop_till_row_tick_cases(4) [OF d]
  have l2: "is_looping_till (tick escaped) \<noteq> 0" using x by (simp add: t escaped_fields)
  have d2: "current_order (modext (tick escaped)) \<noteq> loop_order (tick escaped)"
    using x by (simp add: t escaped_fields loop_till_row_tick_fields)
  have t2: "tick (tick escaped) = loop_till_row_tick (tick escaped)"
    using l2 by (rule tick_loop_till_row)
  note y = loop_till_row_tick_cases(4) [OF d2]
  have m2: "modext (tick (tick escaped)) = modext (tick escaped)" using y by (simp only: t2)
  have m1: "modext (tick escaped) = modext escaped" using x by (simp only: t)
  show ?thesis using l2 by (simp add: m2 m1 escaped_fields)
qed


text \<open>
  Claim C6. In song mode, applying a \<open>PLAYBACK_QUEUE_ORDER\<close> command sets \<open>queued_order\<close>,
  \<open>queued_row\<close> and \<open>has_queued_jump\<close> and nothing else. When such a command is enqueued on
  a drained queue, the audio callback that runs next returns, and before it renders it has
  applied the command, moved the engine to the queued order and row, reapplied the mutes
  and cleared \<open>has_queued_jump\<close>. No condition on the rows is involved.
\<close>

theorem song_mode_queue_order_consumed_by_callback:
  assumes "queue_ok ad" and "command_queue_head ad = command_queue_tail ad"
    and "pattern_mode ad = 0"
  shows "apply_command ad (queue_order ord rw) =
           ad\<lparr>queued_order := ord, queued_row := rw, has_queued_jump := 1\<rparr>
    \<and> (\<exists>ad'. audio_callback rd frames (enqueue_command ad PLAYBACK_QUEUE_ORDER ord rw) =
                 Some (render rd frames ad')
          \<and> has_queued_jump ad' = 0
          \<and> queued_order ad' = ord \<and> queued_row ad' = rw
          \<and> position (modext ad') = (ord, rw)
          \<and> calls (modext ad') = calls (modext ad) @ jump_calls ad ord rw
          \<and> command_queue_head ad' = command_queue_tail ad')"
proof -
  let ?c = "queue_order ord rw"
  let ?e = "enqueue_command ad PLAYBACK_QUEUE_ORDER ord rw"
  have c: "cmd_type ?c = PLAYBACK_QUEUE_ORDER" "cmd_order ?c = ord" "cmd_row ?c = rw"
    by (simp_all add: queue_order_def)
  have first: "apply_command ad ?c = ad\<lparr>queued_order := ord, queued_row := rw, has_queued_jump := 1\<rparr>"
    using assms(3) by (simp add: apply_queue_order c)
  have z: "occupancy ad = 0" using assms(2) by (rule occupancy_empty)
  then have r: "occupancy ad \<noteq> 7" by simp
  have pe: "pending_commands ad = []" using z by (simp add: pending_commands_def)
  note room = enqueue_room [OF assms(1) r, of PLAYBACK_QUEUE_ORDER ord rw]
  have p: "pending_commands ?e = [?c]" using room(3) pe by (simp add: queue_order_def)
  let ?d = "(apply_command ?e ?c)\<lparr>command_queue_head := command_queue_tail ?e\<rparr>"
  have d: "process_commands ?e = Some ?d"
    using process_commands_drain [OF room(1)] by (simp add: p)
  have ae: "apply_command ?e ?c = ?e\<lparr>queued_order := ord, queued_row := rw, has_queued_jump := 1\<rparr>"
    using assms(3) by (simp add: apply_queue_order c enqueue_command_fields)
  let ?a = "consume_queued_jump ?d"
  have cb: "audio_callback rd frames ?e = Some (render rd frames ?a)"
    by (simp add: audio_callback_def d)
  have ca: "?a = (jump_to ?d ord rw)\<lparr>has_queued_jump := 0\<rparr>"
    by (simp add: consume_queued_jump_def ae)
  have jc: "jump_calls ?d ord rw = jump_calls ad ord rw"
    by (rule jump_calls_cong) (simp_all add: ae enqueue_command_fields)
  have "has_queued_jump ?a = 0" "queued_order ?a = ord" "queued_row ?a = rw"
    "position (modext ?a) = (ord, rw)"
    "calls (modext ?a) = calls (modext ad) @ jump_calls ad ord rw"
    "command_queue_head ?a = command_queue_tail ?a"
    by (simp_all add: ca jump_simps jump_to_queue position_def jc)
       (simp_all add: ae enqueue_command_fields)
  with cb first show ?thesis by blast
qed


text \<open>
  C6's theorem on the example player in song mode at order 2, row 5, for a jump to order 3.
\<close>

theorem song_mode_queue_order_consumed_by_callback_witness:
  "queue_ok mid_song \<and> command_queue_head mid_song = command_queue_tail mid_song
   \<and> pattern_mode mid_song = 0
   \<and> current_row (modext mid_song) = 5
   \<and> apply_command mid_song (queue_order 3 0) =
       mid_song\<lparr>queued_order := 3, queued_row := 0, has_queued_jump := 1\<rparr>
   \<and> (\<exists>ad'. audio_callback (\<lambda>rate frames e. e) 256
                 (enqueue_command mid_song PLAYBACK_QUEUE_ORDER 3 0) =
                 Some (render (\<lambda>rate frames e. e) 256 ad')
          \<and> has_queued_jump ad' = 0
          \<and> position (modext ad') = (3, 0)
          \<and> position_calls (calls (modext ad')) = [SetPosition 3 0])"
proof -
  have a: "queue_ok mid_song" "command_queue_head mid_song = command_queue_tail mid_song"
    "pattern_mode mid_song = 0"
    by (simp_all add: mid_song_def example_control_def initial_control_def queue_ok_def
        MAX_COMMANDS_def)
  have r: "current_row (modext mid_song) = 5" using mid_song_fields(1) by (simp add: position_def)
  from song_mode_queue_order_consumed_by_callback [OF a, of 3 0 "\<lambda>rate frames e. e" 256]
  obtain ad' where
    f: "apply_command mid_song (queue_order 3 0) =
       mid_song\<lparr>queued_order := 3, queued_row := 0, has_queued_jump := 1\<rparr>"
    and w: "audio_callback (\<lambda>rate frames e. e) 256
                 (enqueue_command mid_song PLAYBACK_QUEUE_ORDER 3 0) =
                 Some (render (\<lambda>rate frames e. e) 256 ad')"
      "has_queued_jump ad' = 0" "position (modext ad') = (3, 0)"
      "calls (modext ad') = calls (modext mid_song) @ jump_calls mid_song 3 0"
    by blast
  have "position_calls (calls (modext ad')) = [SetPosition 3 0]"
    by (simp add: w(4) mid_song_fields)
  with a r f w show ?thesis by blast
qed


section \<open>Who moves the position cursor\<close>

text \<open>
  Claim C7, as the code has it. Every key handler but that of \<open>r\<close> and \<open>R\<close> leaves the
  position of the engine as it is and issues no position call; so does \<open>enqueue_command\<close>,
  and so does applying a \<open>PLAYBACK_QUEUE_ORDER\<close> command, which does not touch the engine at
  all. The position is set by the handler of \<open>r\<close> and \<open>R\<close> (to row 0 of the current
  order, straight from the control loop), by applying a \<open>PLAYBACK_LOOP_TILL_ROW\<close> command,
  by consuming a queued jump, and by the ticks of the control loop, as in the drift snap of
  the pattern loop.
\<close>

theorem position_cursor_writers:
  "(k \<noteq> key CHR ''r'' \<and> k \<noteq> key CHR ''R'' \<longrightarrow>
      position (modext (handle_key k s)) = position (modext s)
      \<and> position_calls (calls (modext (handle_key k s))) = position_calls (calls (modext s)))
   \<and> (k = key CHR ''r'' \<or> k = key CHR ''R'' \<longrightarrow>
      position (modext (handle_key k s)) = (current_order (modext s), 0)
      \<and> calls (modext (handle_key k s)) =
          calls (modext s) @ jump_calls s (current_order (modext s)) 0)
   \<and> modext (enqueue_command s ty ord rw) = modext s
   \<and> (cmd_type c = PLAYBACK_QUEUE_ORDER \<longrightarrow> modext (apply_command s c) = modext s)
   \<and> (cmd_type c = PLAYBACK_LOOP_TILL_ROW \<longrightarrow>
      position (modext (apply_command s c)) = (cmd_order c, 0)
      \<and> position_calls (calls (modext (apply_command s c))) =
          position_calls (calls (modext s)) @ [SetPosition (cmd_order c) 0])
   \<and> (has_queued_jump s \<noteq> 0 \<longrightarrow>
      position (modext (consume_queued_jump s)) = (queued_order s, queued_row s)
      \<and> position_calls (calls (modext (consume_queued_jump s))) =
          position_calls (calls (modext s)) @ [SetPosition (queued_order s) (queued_row s)])
   \<and> (pattern_mode s \<noteq> 0 \<and> is_looping_till s = 0 \<and> \<not> wrap_seen s
        \<and> current_order (modext s) \<noteq> loop_order s \<longrightarrow>
      position (modext (tick s)) = (loop_order s, 0)
      \<and> position_calls (calls (modext (tick s))) =
          position_calls (calls (modext s)) @ [SetPosition (loop_order s) 0])"
proof (intro conjI impI)
  assume k: "k \<noteq> key CHR ''r'' \<and> k \<noteq> key CHR ''R''"
  then show "position (modext (handle_key k s)) = position (modext s)"
    by (simp add: position_def handle_key_no_jump)
  from k show "position_calls (calls (modext (handle_key k s))) = position_calls (calls (modext s))"
    by (simp add: handle_key_no_jump)
next
  assume k: "k = key CHR ''r'' \<or> k = key CHR ''R''"
  note e = handle_key_retrigger [OF k, of s]
  show "position (modext (handle_key k s)) = (current_order (modext s), 0)"
    by (simp add: e position_def jump_simps)
  show "calls (modext (handle_key k s)) =
      calls (modext s) @ jump_calls s (current_order (modext s)) 0"
    by (simp add: e jump_simps)
next
  show "modext (enqueue_command s ty ord rw) = modext s" by (rule enqueue_command_fields)
next
  assume "cmd_type c = PLAYBACK_QUEUE_ORDER"
  then show "modext (apply_command s c) = modext s" by (simp add: apply_queue_order)
next
  assume c: "cmd_type c = PLAYBACK_LOOP_TILL_ROW"
  show "position (modext (apply_command s c)) = (cmd_order c, 0)"
    by (rule apply_loop_till_row(7) [OF c])
  show "position_calls (calls (modext (apply_command s c))) =
      position_calls (calls (modext s)) @ [SetPosition (cmd_order c) 0]"
    by (simp add: apply_loop_till_row(8) [OF c])
next
  assume q: "has_queued_jump s \<noteq> 0"
  then show "position (modext (consume_queued_jump s)) = (queued_order s, queued_row s)"
    by (simp add: consume_queued_jump_def position_def jump_simps)
  from q show "position_calls (calls (modext (consume_queued_jump s))) =
      position_calls (calls (modext s)) @ [SetPosition (queued_order s) (queued_row s)]"
    by (simp add: consume_queued_jump_def jump_simps)
next
  assume h: "pattern_mode s \<noteq> 0 \<and> is_looping_till s = 0 \<and> \<not> wrap_seen s
        \<and> current_order (modext s) \<noteq> loop_order s"
  then have t: "tick s = pattern_loop_tick s" by (simp add: tick_pattern_loop)
  from h have n: "\<not> (wrap_seen s \<and> pending_pattern_mode_order s \<noteq> - 1
             \<and> pending_pattern_mode_order s \<noteq> loop_order s)" by simp
  note st = pattern_loop_tick_stay [OF n]
  show "position (modext (tick s)) = (loop_order s, 0)" using st(5) h by (simp add: t)
  show "position_calls (calls (modext (tick s))) =
      position_calls (calls (modext s)) @ [SetPosition (loop_order s) 0]"
    using h by (simp add: t st(4))
qed


text \<open>
  C7's theorem on the example player at order 2, row 5: the key \<open>n\<close> leaves the position,
  the key \<open>r\<close> and the two commands do as stated, and the drifted pattern loop snaps back.
\<close>

theorem position_cursor_writers_witness:
  "key CHR ''n'' \<noteq> key CHR ''r'' \<and> key CHR ''n'' \<noteq> key CHR ''R''
   \<and> position (modext (handle_key (key CHR ''n'') mid_song)) = (2, 5)
   \<and> position_calls (calls (modext (handle_key (key CHR ''n'') mid_song))) = []
   \<and> position (modext (handle_key (key CHR ''r'') mid_song)) = (2, 0)
   \<and> cmd_type (queue_order 3 0) = PLAYBACK_QUEUE_ORDER
   \<and> modext (apply_command mid_song (queue_order 3 0)) = modext mid_song
   \<and> cmd_type (loop_till 2 5) = PLAYBACK_LOOP_TILL_ROW
   \<and> position (modext (apply_command mid_song (loop_till 2 5))) = (2, 0)
   \<and> has_queued_jump (apply_command mid_song (queue_order 3 0)) \<noteq> 0
   \<and> position (modext (consume_queued_jump (apply_command mid_song (queue_order 3 0)))) = (3, 0)
   \<and> pattern_mode drifted \<noteq> 0 \<and> is_looping_till drifted = 0 \<and> \<not> wrap_seen drifted
   \<and> current_order (modext drifted) \<noteq> loop_order drifted
   \<and> position (modext (tick drifted)) = (0, 0)"
proof -
  have q: "cmd_type (queue_order 3 0) = PLAYBACK_QUEUE_ORDER" "cmd_order (queue_order 3 0) = 3"
    "cmd_row (queue_order 3 0) = 0"
    and l: "cmd_type (loop_till 2 5) = PLAYBACK_LOOP_TILL_ROW" "cmd_order (loop_till 2 5) = 2"
    by (simp_all add: queue_order_def loop_till_def)
  let ?s1 = "apply_command mid_song (queue_order 3 0)"
  have s1: "has_queued_jump ?s1 = 1" "queued_order ?s1 = 3" "queued_row ?s1 = 0"
    by (simp_all add: apply_queue_order q mid_song_fields)
  show ?thesis
    using position_cursor_writers [of "key CHR ''n''" mid_song _ _ _ "queue_order 3 0"]
      position_cursor_writers [of "key CHR ''r''" mid_song _ _ _ "loop_till 2 5"]
      position_cursor_writers [of "key CHR ''r''" ?s1 _ _ _ "loop_till 2 5"]
      position_cursor_writers [of "key CHR ''r''" drifted _ _ _ "loop_till 2 5"]
    by (simp add: q l s1 mid_song_fields drifted_fields)
qed


text \<open>
  C7 as stated fails: the handler of the key \<open>r\<close>, which runs on the control loop and is
  no queue drain, moves the example player from order 2, row 5 to order 2, row 0.
\<close>

theorem retrigger_key_moves_cursor_counterexample:
  "position (modext mid_song) = (2, 5)
   \<and> position (modext (handle_key (key CHR ''r'') mid_song)) = (2, 0)
   \<and> position (modext (handle_key (key CHR ''r'') mid_song)) \<noteq> position (modext mid_song)
   \<and> position_calls (calls (modext (handle_key (key CHR ''r'') mid_song))) = [SetPosition 2 0]"
proof -
  have e: "handle_key (key CHR ''r'') mid_song = jump_to mid_song (current_order (modext mid_song)) 0"
    by (rule handle_key_retrigger) simp
  have r: "current_row (modext mid_song) = 5" using mid_song_fields(1) by (simp add: position_def)
  show ?thesis unfolding e by (simp add: position_def jump_simps mid_song_fields(2,3) r)
qed


section \<open>The mute vector\<close>

text \<open>
  Claim C8, as the code has it. Take a digit key, 1 to 9, and its 0-based channel \<open>ch\<close>,
  with the interactive interface available. When \<open>ch\<close> is not below the channel count the
  key is a no-op: the mute states and the engine are left as they are. In interactive.c the
  handler prints the out-of-range line, and that is all it changes; in
  modplayer\_regroover.c the handler prints nothing and returns the state it was given.
  When \<open>ch\<close> is below the channel count (and the mute vector has one entry per channel)
  either handler flips the entry of \<open>ch\<close>, calls the engine once, to set the volume of
  \<open>ch\<close> to 0 if the channel is now muted and to 1 if it is not, and prints the line of
  the channel.
\<close>

theorem toggle_channel_in_and_out_of_range:
  assumes "key CHR ''1'' \<le> k" and "k \<le> key CHR ''9''" and "ch = k - key CHR ''1''"
  shows "(p_interactive_ok p \<noteq> 0 \<and> p_num_channels p \<le> ch \<longrightarrow>
            player_handle_key k p = p\<lparr>out := out p @ [DebugOutOfRange (ch + 1) (p_num_channels p)]\<rparr>
            \<and> p_mute_states (player_handle_key k p) = p_mute_states p
            \<and> p_modext (player_handle_key k p) = p_modext p)
    \<and> (p_interactive_ok p \<noteq> 0 \<and> ch < p_num_channels p
          \<and> length (p_mute_states p) = nat (p_num_channels p) \<longrightarrow>
            p_mute_states (player_handle_key k p) =
              (p_mute_states p)[nat ch := c_not (p_mute_states p ! nat ch)]
            \<and> p_mute_states (player_handle_key k p) ! nat ch = c_not (p_mute_states p ! nat ch)
            \<and> calls (p_modext (player_handle_key k p)) =
                calls (p_modext p) @
                  [SetChannelVolume ch (if p_mute_states (player_handle_key k p) ! nat ch \<noteq> 0 then 0 else 1)]
            \<and> channel_volume (p_modext (player_handle_key k p)) ch =
                (if p_mute_states (player_handle_key k p) ! nat ch \<noteq> 0 then 0 else 1))
    \<and> (interactive_ok s \<noteq> 0 \<and> num_channels s \<le> ch \<longrightarrow>
            handle_key k s = s \<and> handle_key_prints k s = [])
    \<and> (interactive_ok s \<noteq> 0 \<and> ch < num_channels s
          \<and> length (mute_states s) = nat (num_channels s) \<longrightarrow>
            mute_states (handle_key k s) =
              (mute_states s)[nat ch := c_not (mute_states s ! nat ch)]
            \<and> mute_states (handle_key k s) ! nat ch = c_not (mute_states s ! nat ch)
            \<and> calls (modext (handle_key k s)) =
                calls (modext s) @
                  [SetChannelVolume ch (if mute_states (handle_key k s) ! nat ch \<noteq> 0 then 0 else 1)]
            \<and> channel_volume (modext (handle_key k s)) ch =
                (if mute_states (handle_key k s) ! nat ch \<noteq> 0 then 0 else 1)
            \<and> handle_key_prints k s =
                [ChannelMuted (ch + 1) (mute_states (handle_key k s) ! nat ch)])"
proof -
  have ch0: "0 \<le> ch" using assms by simp
  show ?thesis
  proof (intro conjI impI)
    assume h: "p_interactive_ok p \<noteq> 0 \<and> p_num_channels p \<le> ch"
    then have e: "player_handle_key k p = print (DebugOutOfRange (ch + 1) (p_num_channels p)) p"
      using digit_key_player [of p k] assms by (simp add: Let_def)
    show "player_handle_key k p = p\<lparr>out := out p @ [DebugOutOfRange (ch + 1) (p_num_channels p)]\<rparr>"
      by (simp add: e print_def)
    show "p_mute_states (player_handle_key k p) = p_mute_states p"
      and "p_modext (player_handle_key k p) = p_modext p"
      by (simp_all add: e print_def)
  next
    assume h: "p_interactive_ok p \<noteq> 0 \<and> ch < p_num_channels p
          \<and> length (p_mute_states p) = nat (p_num_channels p)"
    let ?ms = "(p_mute_states p)[nat ch := c_not (p_mute_states p ! nat ch)]"
    have e: "player_handle_key k p =
        print (DebugChannel (ch + 1) (?ms ! nat ch))
          (p\<lparr>p_mute_states := ?ms, p_modext := set_channel_volume (p_modext p) ch (mute_gain ?ms ch)\<rparr>)"
      using digit_key_player [of p k] assms h by (simp add: Let_def)
    have lt: "nat ch < length (p_mute_states p)" using h ch0 by linarith
    show "p_mute_states (player_handle_key k p) = ?ms" by (simp add: e print_def)
    show "p_mute_states (player_handle_key k p) ! nat ch = c_not (p_mute_states p ! nat ch)"
      using lt by (simp add: e print_def)
    show "calls (p_modext (player_handle_key k p)) =
        calls (p_modext p) @
          [SetChannelVolume ch (if p_mute_states (player_handle_key k p) ! nat ch \<noteq> 0 then 0 else 1)]"
      by (simp add: e print_def set_channel_volume_simps mute_gain_def)
    show "channel_volume (p_modext (player_handle_key k p)) ch =
        (if p_mute_states (player_handle_key k p) ! nat ch \<noteq> 0 then 0 else 1)"
      by (simp add: e print_def set_channel_volume_simps mute_gain_def)
  next
    assume h: "interactive_ok s \<noteq> 0 \<and> num_channels s \<le> ch"
    then show "handle_key k s = s"
      using digit_key_control [of s k] assms by (simp add: toggle_channel_def)
    from h show "handle_key_prints k s = []"
      using digit_key_prints [of s k] assms by (simp add: Let_def)
  next
    assume h: "interactive_ok s \<noteq> 0 \<and> ch < num_channels s
          \<and> length (mute_states s) = nat (num_channels s)"
    let ?ms = "(mute_states s)[nat ch := c_not (mute_states s ! nat ch)]"
    have e: "handle_key k s =
        s\<lparr>mute_states := ?ms, modext := set_channel_volume (modext s) ch (mute_gain ?ms ch)\<rparr>"
      using digit_key_control [of s k] assms h by (simp add: toggle_channel_def Let_def)
    have lt: "nat ch < length (mute_states s)" using h ch0 by linarith
    show "mute_states (handle_key k s) = ?ms" by (simp add: e)
    show "mute_states (handle_key k s) ! nat ch = c_not (mute_states s ! nat ch)"
      using lt by (simp add: e)
    show "calls (modext (handle_key k s)) =
        calls (modext s) @
          [SetChannelVolume ch (if mute_states (handle_key k s) ! nat ch \<noteq> 0 then 0 else 1)]"
      by (simp add: e set_channel_volume_simps mute_gain_def)
    show "channel_volume (modext (handle_key k s)) ch =
        (if mute_states (handle_key k s) ! nat ch \<noteq> 0 then 0 else 1)"
      by (simp add: e set_channel_volume_simps mute_gain_def)
    have "handle_key_prints k s = [ChannelMuted (ch + 1) (?ms ! nat ch)]"
      using digit_key_prints [of s k] assms h by (simp add: Let_def)
    then show "handle_key_prints k s =
        [ChannelMuted (ch + 1) (mute_states (handle_key k s) ! nat ch)]"
      by (simp add: e)
  qed
qed


text \<open>
  C8's theorem on the three-channel example players: key 5 is out of range, key 2 mutes
  channel 1.
\<close>

theorem toggle_channel_in_and_out_of_range_witness:
  "key CHR ''1'' \<le> key CHR ''5'' \<and> key CHR ''5'' \<le> key CHR ''9''
   \<and> key CHR ''1'' \<le> key CHR ''2'' \<and> key CHR ''2'' \<le> key CHR ''9''
   \<and> p_interactive_ok example_player \<noteq> 0 \<and> p_num_channels example_player = 3
   \<and> length (p_mute_states example_player) = nat (p_num_channels example_player)
   \<and> interactive_ok example_control \<noteq> 0 \<and> num_channels example_control = 3
   \<and> length (mute_states example_control) = nat (num_channels example_control)
   \<and> player_handle_key (key CHR ''5'') example_player =
       example_player\<lparr>out := [DebugOutOfRange 5 3]\<rparr>
   \<and> handle_key (key CHR ''5'') example_control = example_control
   \<and> handle_key_prints (key CHR ''5'') example_control = []
   \<and> handle_key_prints (key CHR ''2'') example_control = [ChannelMuted 2 1]
   \<and> p_mute_states (player_handle_key (key CHR ''2'') example_player) = [0, 1, 0]
   \<and> calls (p_modext (player_handle_key (key CHR ''2'') example_player)) =
       calls (p_modext example_player) @ [SetChannelVolume 1 0]
   \<and> mute_states (handle_key (key CHR ''2'') example_control) = [0, 1, 0]
   \<and> calls (modext (handle_key (key CHR ''2'') example_control)) =
       calls (modext example_control) @ [SetChannelVolume 1 0]"
proof -
  have k5: "key CHR ''1'' \<le> key CHR ''5''" "key CHR ''5'' \<le> key CHR ''9''"
    "(4::int) = key CHR ''5'' - key CHR ''1''" by simp_all
  have k2: "key CHR ''1'' \<le> key CHR ''2''" "key CHR ''2'' \<le> key CHR ''9''"
    "(1::int) = key CHR ''2'' - key CHR ''1''" by simp_all
  note a = toggle_channel_in_and_out_of_range [OF k5, of example_player example_control]
  note b = toggle_channel_in_and_out_of_range [OF k2, of example_player example_control]
  show ?thesis
    using a b
    by (simp add: example_player_fields example_control_fields c_not_def)
qed


text \<open>
  C8 as stated fails for modplayer\_regroover.c: on the three-channel example player the
  key 5, whose channel is out of range, is refused without a diagnostic. Nothing is
  printed and the state is unchanged.
\<close>

theorem silent_out_of_range_counterexample:
  "interactive_ok example_control \<noteq> 0
   \<and> key CHR ''1'' \<le> key CHR ''5'' \<and> key CHR ''5'' \<le> key CHR ''9''
   \<and> num_channels example_control \<le> key CHR ''5'' - key CHR ''1''
   \<and> handle_key (key CHR ''5'') example_control = example_control
   \<and> handle_key_prints (key CHR ''5'') example_control = []"
proof -
  have k: "key CHR ''1'' \<le> key CHR ''5''" "key CHR ''5'' \<le> key CHR ''9''" by simp_all
  have i: "interactive_ok example_control \<noteq> 0" by (simp add: example_control_fields)
  have "handle_key (key CHR ''5'') example_control = toggle_channel example_control 4"
    using digit_key_control [OF i k] by simp
  then have h: "handle_key (key CHR ''5'') example_control = example_control"
    by (simp add: toggle_channel_def example_control_fields)
  have p: "handle_key_prints (key CHR ''5'') example_control = []"
    using digit_key_prints [OF i k] by (simp add: example_control_fields)
  show ?thesis using h p by (simp add: example_control_fields)
qed


text \<open>
  Claim C9. \<open>reapply_mutes\<close> called twice leaves the engine with the volumes that one call
  leaves, for every state. With the interactive interface available, after a call every
  channel below the channel count has volume 0 if it is muted and 1 if it is not.
\<close>

theorem reapply_mutes_idempotent:
  "channel_volume (modext (reapply_mutes (reapply_mutes ad))) =
     channel_volume (modext (reapply_mutes ad))
   \<and> (interactive_ok ad \<noteq> 0 \<longrightarrow>
        (\<forall>ch. 0 \<le> ch \<and> ch < num_channels ad \<longrightarrow>
           channel_volume (modext (reapply_mutes ad)) ch =
             (if mute_states ad ! nat ch \<noteq> 0 then 0 else 1)))"
  by (auto simp: reapply_mutes_volume reapply_mutes_common fun_eq_iff mute_gain_def)


text \<open>C9's theorem on the example player with channel 1 muted.\<close>

theorem reapply_mutes_idempotent_witness:
  "interactive_ok muted_example \<noteq> 0
   \<and> num_channels muted_example = 3
   \<and> mute_states muted_example = [0, 1, 0]
   \<and> channel_volume (modext (reapply_mutes (reapply_mutes muted_example))) =
       channel_volume (modext (reapply_mutes muted_example))
   \<and> channel_volume (modext (reapply_mutes muted_example)) 0 = 1
   \<and> channel_volume (modext (reapply_mutes muted_example)) 1 = 0
   \<and> channel_volume (modext (reapply_mutes muted_example)) 2 = 1"
proof -
  note t = reapply_mutes_idempotent [of muted_example]
  from t have v: "\<And>ch. 0 \<le> ch \<Longrightarrow> ch < 3 \<Longrightarrow>
      channel_volume (modext (reapply_mutes muted_example)) ch =
        (if [0, 1, 0::int] ! nat ch \<noteq> 0 then 0 else 1)"
    by (simp add: muted_example_fields)
  show ?thesis using t v [of 0] v [of 1] v [of 2] by (simp add: muted_example_fields)
qed


section \<open>Looping till row 0\<close>

text \<open>
  Claim C10. When a \<open>PLAYBACK_LOOP_TILL_ROW\<close> command has stop row 0, applying it leaves the
  engine at the loop order and the stop row, so a tick that follows at once leaves the
  looping state and calls nothing. More generally, in the looping state with stop row 0 no
  tick ever calls the engine, so the pattern is never looped, and the tick that observes
  the loop order at row 0 leaves the state.
\<close>

theorem loop_till_row_zero_exits_at_once:
  assumes "cmd_type c = PLAYBACK_LOOP_TILL_ROW" and "cmd_row c = 0"
  shows "is_looping_till (apply_command s c) \<noteq> 0
    \<and> position (modext (apply_command s c)) =
        (loop_order (apply_command s c), loop_till_row (apply_command s c))
    \<and> is_looping_till (tick (apply_command s c)) = 0
    \<and> modext (tick (apply_command s c)) = modext (apply_command s c)
    \<and> (is_looping_till u \<noteq> 0 \<and> loop_till_row u = 0 \<longrightarrow>
         modext (tick u) = modext u
         \<and> (current_order (modext u) = loop_order u \<and> current_row (modext u) = 0 \<longrightarrow>
              is_looping_till (tick u) = 0))"
proof -
  note a = apply_loop_till_row [OF assms(1), of s]
  let ?s1 = "apply_command s c"
  have l: "is_looping_till ?s1 \<noteq> 0" by (simp add: a(1))
  have p: "current_order (modext ?s1) = loop_order ?s1" "current_row (modext ?s1) = loop_till_row ?s1"
    using a(7) assms(2) by (simp_all add: position_def a(2,4))
  have t: "tick ?s1 = loop_till_row_tick ?s1" using l by (rule tick_loop_till_row)
  have x: "is_looping_till (tick ?s1) = 0"
    using loop_till_row_tick_cases(1) [OF l] p by (simp only: t)
  have m: "modext (tick ?s1) = modext ?s1"
    using loop_till_row_tick_cases(2) [OF p] by (simp only: t)
  have g: "modext (tick u) = modext u
         \<and> (current_order (modext u) = loop_order u \<and> current_row (modext u) = 0 \<longrightarrow>
              is_looping_till (tick u) = 0)"
    if u: "is_looping_till u \<noteq> 0" "loop_till_row u = 0" for u :: "'b Control_scheme"
  proof -
    have tu: "tick u = loop_till_row_tick u" using u(1) by (rule tick_loop_till_row)
    have "modext (loop_till_row_tick u) = modext u"
      using u(2) by (auto simp add: loop_till_row_tick_def Let_def)
    moreover have "current_order (modext u) = loop_order u \<and> current_row (modext u) = 0 \<longrightarrow>
        is_looping_till (loop_till_row_tick u) = 0"
      using loop_till_row_tick_cases(1) [OF u(1)] u(2) by simp
    ultimately show ?thesis by (simp only: tu)
  qed
  show ?thesis using l a(7) x m g by (simp add: a(2,4) assms(2))
qed


text \<open>
  C10's theorem on the example player for order 2: right after the command, and at a later
  wrap to row 0 of order 2, where the state is left without a jump.
\<close>

theorem loop_till_row_zero_exits_at_once_witness:
  "cmd_type (loop_till 2 0) = PLAYBACK_LOOP_TILL_ROW \<and> cmd_row (loop_till 2 0) = 0
   \<and> is_looping_till (apply_command example_control (loop_till 2 0)) \<noteq> 0
   \<and> position (modext (apply_command example_control (loop_till 2 0))) = (2, 0)
   \<and> is_looping_till (tick (apply_command example_control (loop_till 2 0))) = 0
   \<and> modext (tick (apply_command example_control (loop_till 2 0))) =
       modext (apply_command example_control (loop_till 2 0))
   \<and> is_looping_till zero_loop \<noteq> 0 \<and> loop_till_row zero_loop = 0
   \<and> current_order (modext zero_loop) = loop_order zero_loop
   \<and> current_row (modext zero_loop) = 0
   \<and> modext (tick zero_loop) = modext zero_loop
   \<and> is_looping_till (tick zero_loop) = 0"
proof -
  have c: "cmd_type (loop_till 2 0) = PLAYBACK_LOOP_TILL_ROW" "cmd_row (loop_till 2 0) = 0"
    by (simp_all add: loop_till_def)
  note a = apply_loop_till_row [OF c(1), of example_control]
  show ?thesis
    using loop_till_row_zero_exits_at_once [OF c, of example_control zero_loop] a c
    by (simp add: loop_till_def zero_loop_fields)
qed

end
